theory Spec2Isabelle
  imports Complex_Main
begin

section \<open>Data model\<close>

text \<open>
  Node identifiers are hashable Python values. Matrix positions are Python integers, and
  \<^verbatim>\<open>rev_index.get(item, item)\<close> falls back to the position itself, so integers
  have to be node identifiers too.
\<close>

datatype node = NInt int | NStr string

datatype error =
  ZeroDivisionError | IndexError | KeyError | ValueError | UnboundLocalError

text \<open>
  A networkx graph: the node list in insertion order, the edges in the order and
  orientation in which \<^verbatim>\<open>graph.edges\<close> reports them, each with its
  \<^verbatim>\<open>weight\<close> attribute, the edge attributes \<^verbatim>\<open>hub\<close> and
  \<^verbatim>\<open>reliability score\<close>, keyed by the stored edge, and the node attribute
  \<^verbatim>\<open>cluster\<close>. Python floats are modelled as real numbers.
\<close>

record graph =
  nodes :: "node list"
  edges :: "(node \<times> node \<times> real) list"
  edge_hub :: "node \<times> node \<Rightarrow> string option"
  edge_reliability :: "node \<times> node \<Rightarrow> real option"
  node_cluster :: "node \<Rightarrow> int option"

text \<open>An undirected simple graph stores one edge for each unordered pair of nodes.\<close>

definition same_edge :: "node \<Rightarrow> node \<Rightarrow> node \<times> node \<times> real \<Rightarrow> bool" where
  "same_edge u v e = (case e of (a, b, w) \<Rightarrow> (a = u \<and> b = v) \<or> (a = v \<and> b = u))"

fun simple_edges :: "(node \<times> node \<times> real) list \<Rightarrow> bool" where
  "simple_edges [] = True"
| "simple_edges ((u, v, w) # es) = (\<not> list_ex (same_edge u v) es \<and> simple_edges es)"

definition wf_graph :: "graph \<Rightarrow> bool" where
  "wf_graph g =
     (distinct (nodes g) \<and>
      list_all (\<lambda>(u, v, w). u \<in> set (nodes g) \<and> v \<in> set (nodes g)) (edges g) \<and>
      simple_edges (edges g))"

section \<open>The networkx operations that the scorer uses\<close>

text \<open>
  \<^verbatim>\<open>graph.subgraph(node_ids)\<close> followed by \<^verbatim>\<open>.edges\<close>: the edges with both
  end points among the nodes of the graph that are listed in \<^verbatim>\<open>node_ids\<close>.
  The view may report an edge with its end points swapped; \<open>flip\<close> says for which
  edges it does.
\<close>

definition subgraph_edges ::
  "(node \<times> node \<Rightarrow> bool) \<Rightarrow> graph \<Rightarrow> node list \<Rightarrow> (node \<times> node \<times> real) list" where
  "subgraph_edges flip g node_ids =
     map (\<lambda>(u, v, w). if flip (u, v) then (v, u, w) else (u, v, w))
       (filter (\<lambda>(u, v, w). u \<in> set node_ids \<and> u \<in> set (nodes g) \<and>
                            v \<in> set node_ids \<and> v \<in> set (nodes g)) (edges g))"

text \<open>\<^verbatim>\<open>graph[u][v]['weight']\<close>; a missing edge raises KeyError.\<close>

definition edge_weight :: "graph \<Rightarrow> node \<Rightarrow> node \<Rightarrow> error + real" where
  "edge_weight g u v =
     (case find (same_edge u v) (edges g) of
        None \<Rightarrow> Inl KeyError
      | Some (a, b, w) \<Rightarrow> Inr w)"

section \<open>sparsity_score\<close>

text \<open>\<^verbatim>\<open>np.where(clusters == cluster_id)[0]\<close>\<close>

definition cluster_members :: "int list \<Rightarrow> int \<Rightarrow> nat list" where
  "cluster_members clusters cluster_id =
     filter (\<lambda>i. clusters ! i = cluster_id) [0..<length clusters]"

text \<open>\<^verbatim>\<open>rev_index.get(item, item)\<close>\<close>

definition rev_get :: "(nat \<Rightarrow> node option) \<Rightarrow> nat \<Rightarrow> node" where
  "rev_get rev_index item =
     (case rev_index item of Some n \<Rightarrow> n | None \<Rightarrow> NInt (int item))"

text \<open>
  The loop over \<^verbatim>\<open>set(clusters)\<close>. The state is the running score and the list
  \<^verbatim>\<open>edges\<close> of the edges seen inside clusters.
\<close>

fun cluster_loop ::
  "(node \<times> node \<Rightarrow> bool) \<Rightarrow> graph \<Rightarrow> int list \<Rightarrow> (nat \<Rightarrow> node option) \<Rightarrow> real \<Rightarrow>
   int list \<Rightarrow> real \<times> (node \<times> node) list \<Rightarrow> real \<times> (node \<times> node) list" where
  "cluster_loop flip g clusters rev_index cut_score [] st = st"
| "cluster_loop flip g clusters rev_index cut_score (cluster_id # ids) (sparsity, es) =
     (let node_ids = map (rev_get rev_index) (cluster_members clusters cluster_id);
          cluster = subgraph_edges flip g node_ids;
          es' = es @ map (\<lambda>(u, v, w). (u, v)) cluster;
          sparsity' = fold (\<lambda>(u, v, w) s. if w < 0 then s + cut_score else s - cut_score)
                        cluster sparsity
      in cluster_loop flip g clusters rev_index cut_score ids (sparsity', es'))"

text \<open>The loop over \<^verbatim>\<open>cuts\<close>.\<close>

fun cut_loop :: "graph \<Rightarrow> real \<Rightarrow> (node \<times> node) list \<Rightarrow> real \<Rightarrow> error + real" where
  "cut_loop g cut_score [] sparsity = Inr sparsity"
| "cut_loop g cut_score ((u, v) # cuts) sparsity =
     (case edge_weight g u v of
        Inl e \<Rightarrow> Inl e
      | Inr cut_w \<Rightarrow>
          cut_loop g cut_score cuts
            (if cut_w > 0 then sparsity + cut_score else sparsity - cut_score))"

text \<open>
  The set of cluster ids is visited in the order of first occurrence; the score is a sum
  of real numbers, so the order does not change it.
\<close>

definition sparsity_score ::
  "(node \<times> node \<Rightarrow> bool) \<Rightarrow> graph \<Rightarrow> int list \<Rightarrow> (nat \<Rightarrow> node option) \<Rightarrow> error + real" where
  "sparsity_score flip g clusters rev_index =
     (if length (edges g) = 0 then Inl ZeroDivisionError
      else
        let cut_score = 1 / real (length (edges g));
            (sparsity, es) =
               cluster_loop flip g clusters rev_index cut_score (remdups clusters) (0, []);
            cuts = map (\<lambda>(u, v, w). (u, v))
                     (filter (\<lambda>(u, v, w). (u, v) \<notin> set es \<and> (v, u) \<notin> set es) (edges g))
        in cut_loop g cut_score cuts sparsity)"


section \<open>Effects: standard output, randomness, exceptions\<close>

text \<open>
  The lines written to standard output, without their wording: the score of the random
  assignment, the score of one k, the lowest score with its k, the two warnings, the
  lowest score of one snapshot, and the list of separating iterations.
\<close>

datatype event =
    RandomSparsity real
  | SparsityLevel int real
  | LowestScore int real
  | WarnRandomBest
  | WarnOnlyKMeans
  | IterationLowest nat int real
  | UsingIterations "nat list"

text \<open>
  A program runs in a world (the random state and what was written so far) and returns a
  value or raises; what it wrote before raising stays written.
\<close>

record 's world =
  rng :: 's
  stdout :: "event list"

type_synonym ('s, 'a) prog = "'s world \<Rightarrow> (error + 'a) \<times> 's world"

definition ret :: "'a \<Rightarrow> ('s, 'a) prog" where
  "ret x = (\<lambda>w. (Inr x, w))"

definition raise :: "error \<Rightarrow> ('s, 'a) prog" where
  "raise e = (\<lambda>w. (Inl e, w))"

definition bnd :: "('s, 'a) prog \<Rightarrow> ('a \<Rightarrow> ('s, 'b) prog) \<Rightarrow> ('s, 'b) prog" where
  "bnd m f = (\<lambda>w. case m w of (Inl e, w') \<Rightarrow> (Inl e, w') | (Inr x, w') \<Rightarrow> f x w')"

definition pure_step :: "error + 'a \<Rightarrow> ('s, 'a) prog" where
  "pure_step r = (\<lambda>w. (r, w))"

definition emit :: "event \<Rightarrow> ('s, unit) prog" where
  "emit ev = (\<lambda>w. (Inr (), w\<lparr>stdout := stdout w @ [ev]\<rparr>))"

definition call_ext :: "('s \<Rightarrow> error + 'a \<times> 's) \<Rightarrow> ('s, 'a) prog" where
  "call_ext f =
     (\<lambda>w. case f (rng w) of
            Inl e \<Rightarrow> (Inl e, w)
          | Inr (x, s') \<Rightarrow> (Inr x, w\<lparr>rng := s'\<rparr>))"

definition call_total :: "('s \<Rightarrow> 'a \<times> 's) \<Rightarrow> ('s, 'a) prog" where
  "call_total f = (\<lambda>w. case f (rng w) of (x, s') \<Rightarrow> (Inr x, w\<lparr>rng := s'\<rparr>))"

text \<open>
  The collaborators outside the repository. scikit-learn's k-means and numpy's random
  generator draw from a random state \<open>'s\<close>, and k-means may reject its input.
  \<^verbatim>\<open>KMeans(k).fit_predict(m)\<close> returns the labels,
  \<^verbatim>\<open>KMeans(k).fit(m).cluster_centers_\<close> the centroids, and
  \<^verbatim>\<open>np.random.randint(2, size=n)\<close> a vector of length n.
\<close>

text \<open>
  Modelled from the spec: \<^verbatim>\<open>diffusion\<close> and \<^verbatim>\<open>perm_graph\<close> of
  \<^verbatim>\<open>manta.perms\<close> are missing from the sources. Section 4.1 describes diffusion as
  a fixed-point iteration on the weighted adjacency matrix, without randomness: it is a
  function of the nodes, the weighted edges, \<^verbatim>\<open>limit\<close> (None for its default),
  \<^verbatim>\<open>iterations\<close> and \<^verbatim>\<open>norm\<close>, and returns the score matrix, the memory flag
  and the snapshots. Section 6 gives perm_graph the graph, the score matrix, the
  percentile, the number of permutations, the positive and negative hub positions and
  the rewiring fraction; it rewires at random and returns a matrix of reliability
  scores. Both are parameters of the model.
\<close>

record 's extern =
  KMeans_fit_predict :: "int \<Rightarrow> real list list \<Rightarrow> 's \<Rightarrow> error + int list \<times> 's"
  KMeans_cluster_centers :: "int \<Rightarrow> real list list \<Rightarrow> 's \<Rightarrow> error + real list list \<times> 's"
  random_randint :: "nat \<Rightarrow> 's \<Rightarrow> int list \<times> 's"
  diffusion ::
    "node list \<Rightarrow> (node \<times> node \<times> real) list \<Rightarrow> real option \<Rightarrow> int \<Rightarrow> bool \<Rightarrow>
     error + real list list \<times> bool \<times> real list list list"
  perm_graph ::
    "graph \<Rightarrow> real list list \<Rightarrow> real \<Rightarrow> int \<Rightarrow> (nat \<times> nat) list \<Rightarrow> (nat \<times> nat) list \<Rightarrow>
     real \<Rightarrow> 's \<Rightarrow> error + real list list \<times> 's"

text \<open>\<^verbatim>\<open>np.min\<close> and \<^verbatim>\<open>np.argmin\<close> (the first index of the minimum) of a list.\<close>

definition np_min :: "real list \<Rightarrow> error + real" where
  "np_min xs = (case xs of [] \<Rightarrow> Inl ValueError | x # ys \<Rightarrow> Inr (fold min ys x))"

definition np_argmin :: "real list \<Rightarrow> error + nat" where
  "np_argmin xs =
     (case xs of
        [] \<Rightarrow> Inl ValueError
      | x # ys \<Rightarrow> Inr (length (takeWhile (\<lambda>y. y \<noteq> fold min ys x) xs)))"

text \<open>The loop of cluster_hard over \<^verbatim>\<open>range(min_clusters, max_clusters + 1)\<close>.\<close>

fun hard_sweep ::
  "'s extern \<Rightarrow> (node \<times> node \<Rightarrow> bool) \<Rightarrow> graph \<Rightarrow> (nat \<Rightarrow> node option) \<Rightarrow> real list list \<Rightarrow>
   int list \<Rightarrow> real list \<Rightarrow> ('s, real list) prog" where
  "hard_sweep ext flip g rev_index scoremat [] scores = ret scores"
| "hard_sweep ext flip g rev_index scoremat (i # ks) scores =
     bnd (call_ext (KMeans_fit_predict ext i scoremat)) (\<lambda>clusters.
     bnd (pure_step (sparsity_score flip g clusters rev_index)) (\<lambda>score.
     bnd (emit (SparsityLevel i score)) (\<lambda>_.
     hard_sweep ext flip g rev_index scoremat ks (scores @ [score]))))"

text \<open>
  \<^verbatim>\<open>scores[0]\<close> is the score of the random assignment. With another method than
  k-means \<^verbatim>\<open>bestcluster\<close> is never bound, and \<^verbatim>\<open>return bestcluster\<close> raises.
\<close>

definition cluster_hard ::
  "'s extern \<Rightarrow> (node \<times> node \<Rightarrow> bool) \<Rightarrow> graph \<Rightarrow> (nat \<Rightarrow> node option) \<Rightarrow> real list list \<Rightarrow>
   int \<Rightarrow> int \<Rightarrow> string \<Rightarrow> ('s, int list) prog" where
  "cluster_hard ext flip g rev_index scoremat max_clusters min_clusters cluster =
     bnd (call_total (random_randint ext (length scoremat))) (\<lambda>randomclust.
     bnd (pure_step (sparsity_score flip g randomclust rev_index)) (\<lambda>score0.
     bnd (emit (RandomSparsity score0)) (\<lambda>_.
     if cluster = ''KMeans'' then
       bnd (hard_sweep ext flip g rev_index scoremat [min_clusters..max_clusters] [score0])
         (\<lambda>scores.
       bnd (pure_step (np_argmin scores)) (\<lambda>a.
       let topscore = int a + min_clusters - 1 in
       bnd (if topscore \<ge> min_clusters
            then bnd (pure_step (np_min scores)) (\<lambda>m. emit (LowestScore topscore m))
            else emit WarnRandomBest) (\<lambda>_.
       call_ext (KMeans_fit_predict ext topscore scoremat))))
     else
       bnd (emit WarnOnlyKMeans) (\<lambda>_. raise UnboundLocalError))))"


section \<open>cluster_fuzzy\<close>

text \<open>Pure steps that may raise are chained with \<open>ebind\<close>.\<close>

definition ebind :: "error + 'a \<Rightarrow> ('a \<Rightarrow> error + 'b) \<Rightarrow> error + 'b" where
  "ebind r f = (case r of Inl e \<Rightarrow> Inl e | Inr x \<Rightarrow> f x)"

text \<open>\<^verbatim>\<open>xs[i]\<close> for \<open>i \<ge> 0\<close>, and \<^verbatim>\<open>xs[-1]\<close>.\<close>

definition list_get :: "'a list \<Rightarrow> nat \<Rightarrow> error + 'a" where
  "list_get xs i = (if i < length xs then Inr (xs ! i) else Inl IndexError)"

definition last_get :: "'a list \<Rightarrow> error + 'a" where
  "last_get xs = (if xs = [] then Inl IndexError else Inr (last xs))"

text \<open>The sweep over \<^verbatim>\<open>range(min_clusters, max_clusters + 1)\<close> for one snapshot.\<close>

fun cluster_fuzzy_scores ::
  "'s extern \<Rightarrow> (node \<times> node \<Rightarrow> bool) \<Rightarrow> graph \<Rightarrow> (nat \<Rightarrow> node option) \<Rightarrow> real list list \<Rightarrow>
   int list \<Rightarrow> real list \<Rightarrow> ('s, real list) prog" where
  "cluster_fuzzy_scores ext flip g rev_index scoremat [] scores = ret scores"
| "cluster_fuzzy_scores ext flip g rev_index scoremat (i # ks) scores =
     bnd (call_ext (KMeans_fit_predict ext i scoremat)) (\<lambda>clusters.
     bnd (pure_step (sparsity_score flip g clusters rev_index)) (\<lambda>score.
     cluster_fuzzy_scores ext flip g rev_index scoremat ks (scores @ [score])))"

text \<open>
  The loop over \<^verbatim>\<open>range(len(diffs))\<close>. With another method than k-means
  \<^verbatim>\<open>scores\<close> stays empty and \<^verbatim>\<open>np.argmin(scores)\<close> raises.
\<close>

fun cluster_fuzzy_diffs ::
  "'s extern \<Rightarrow> (node \<times> node \<Rightarrow> bool) \<Rightarrow> graph \<Rightarrow> (nat \<Rightarrow> node option) \<Rightarrow> int \<Rightarrow> int \<Rightarrow> string \<Rightarrow>
   nat \<Rightarrow> real list list list \<Rightarrow> real list \<times> int list \<Rightarrow> ('s, real list \<times> int list) prog" where
  "cluster_fuzzy_diffs ext flip g rev_index max_clusters min_clusters cluster j [] acc = ret acc"
| "cluster_fuzzy_diffs ext flip g rev_index max_clusters min_clusters cluster j (scoremat # diffs')
     (difscores, topscores) =
     (if cluster = ''KMeans'' then
        bnd (cluster_fuzzy_scores ext flip g rev_index scoremat [min_clusters..max_clusters] [])
          (\<lambda>scores.
        bnd (pure_step (np_argmin scores)) (\<lambda>a.
        let topscore = int a + min_clusters in
        bnd (pure_step (np_min scores)) (\<lambda>m.
        bnd (emit (IterationLowest j topscore m)) (\<lambda>_.
        bnd (pure_step (ebind (np_argmin scores) (list_get scores))) (\<lambda>d.
        cluster_fuzzy_diffs ext flip g rev_index max_clusters min_clusters cluster (Suc j) diffs'
          (difscores @ [d], topscores @ [topscore]))))))
      else
        bnd (pure_step (ebind (np_argmin []) (list_get ([] :: real list)))) (\<lambda>d.
        raise UnboundLocalError))"

text \<open>\<^verbatim>\<open>np.where(np.array(difscores) < -0.5)[0]\<close>\<close>

definition separating :: "real list \<Rightarrow> nat list" where
  "separating difscores = filter (\<lambda>j. difscores ! j < - (1 / 2)) [0..<length difscores]"

text \<open>
  The loop over \<^verbatim>\<open>separating_iters[1:]\<close>: the labels come from one fit and the
  centroids from a second, independent fit.
\<close>

fun cluster_fuzzy_refit ::
  "'s extern \<Rightarrow> real list list list \<Rightarrow> int list \<Rightarrow> string \<Rightarrow> nat list \<Rightarrow>
   int list list \<times> real list list list \<Rightarrow> ('s, int list list \<times> real list list list) prog" where
  "cluster_fuzzy_refit ext diffs' topscores cluster [] acc = ret acc"
| "cluster_fuzzy_refit ext diffs' topscores cluster (j # js) (sep_clusters, centroids) =
     bnd (pure_step (list_get diffs' j)) (\<lambda>scoremat.
     if cluster = ''KMeans'' then
       bnd (pure_step (list_get topscores j)) (\<lambda>k.
       bnd (call_ext (KMeans_fit_predict ext k scoremat)) (\<lambda>labels.
       bnd (call_ext (KMeans_cluster_centers ext k scoremat)) (\<lambda>centers.
       cluster_fuzzy_refit ext diffs' topscores cluster js
         (sep_clusters @ [labels], centroids @ [centers]))))
     else cluster_fuzzy_refit ext diffs' topscores cluster js (sep_clusters, centroids))"

text \<open>
  \<^verbatim>\<open>clusdict\<close>: final cluster id \<open>\<rightharpoonup>\<close> snapshot index \<open>\<rightharpoonup>\<close> list of matched earlier
  cluster ids.
\<close>

type_synonym clusdict = "int \<Rightarrow> (nat \<Rightarrow> nat list option) option"

definition init_clusdict :: "int \<Rightarrow> nat \<Rightarrow> clusdict" where
  "init_clusdict topscore ncentroids =
     (\<lambda>key. if 0 \<le> key \<and> key < topscore
            then Some (\<lambda>val. if int val < int ncentroids - 1 then Some [] else None)
            else None)"

text \<open>\<^verbatim>\<open>clusdict[key][j].append(m)\<close>\<close>

definition clusdict_append :: "clusdict \<Rightarrow> int \<Rightarrow> nat \<Rightarrow> nat \<Rightarrow> error + clusdict" where
  "clusdict_append cd key j m =
     (case cd key of
        None \<Rightarrow> Inl KeyError
      | Some inner \<Rightarrow>
          (case inner j of
             None \<Rightarrow> Inl KeyError
           | Some l \<Rightarrow> Inr (cd(key := Some (inner(j := Some (l @ [m])))))))"

text \<open>
  \<^verbatim>\<open>np.mean(a - b)\<close> for two vectors: they subtract when their lengths agree or one
  of them has length one. The mean of no numbers is NaN in numpy; real numbers have no
  NaN, and the model raises ValueError there.
\<close>

definition np_mean_diff :: "real list \<Rightarrow> real list \<Rightarrow> error + real" where
  "np_mean_diff a b =
     (let d = (if length a = length b then Inr (map2 (-) a b)
               else if length b = 1 then Inr (map (\<lambda>x. x - hd b) a)
               else if length a = 1 then Inr (map (\<lambda>y. hd a - y) b)
               else Inl ValueError)
      in ebind d (\<lambda>d. if d = [] then Inl ValueError
                      else Inr (sum_list d / real (length d))))"

text \<open>The loop over \<^verbatim>\<open>range(len(core_centers))\<close> that fills \<^verbatim>\<open>diff\<close>.\<close>

fun mean_diffs :: "real list \<Rightarrow> real list list \<Rightarrow> real list \<Rightarrow> error + real list" where
  "mean_diffs iter [] diff = Inr diff"
| "mean_diffs iter (c # core_centers) diff =
     ebind (np_mean_diff iter c) (\<lambda>d. mean_diffs iter core_centers (diff @ [\<bar>d\<bar>]))"

text \<open>\<^verbatim>\<open>diff.index(min(diff))\<close>\<close>

definition index_min :: "real list \<Rightarrow> error + nat" where
  "index_min diff = np_argmin diff"

text \<open>The loop over \<^verbatim>\<open>range(len(iter_centers))\<close>.\<close>

fun match_clusters ::
  "real list list \<Rightarrow> nat \<Rightarrow> real list list \<Rightarrow> nat \<Rightarrow> clusdict \<Rightarrow> error + clusdict" where
  "match_clusters core_centers j [] m cd = Inr cd"
| "match_clusters core_centers j (iter # iter_centers) m cd =
     ebind (mean_diffs iter core_centers []) (\<lambda>diff.
     ebind (index_min diff) (\<lambda>n.
     ebind (clusdict_append cd (int n) j m) (\<lambda>cd'.
     match_clusters core_centers j iter_centers (Suc m) cd')))"

text \<open>The loop over \<^verbatim>\<open>range(0, len(centroids) - 1)\<close>.\<close>

fun match_iters ::
  "real list list \<Rightarrow> nat \<Rightarrow> real list list list \<Rightarrow> clusdict \<Rightarrow> error + clusdict" where
  "match_iters core_centers j [] cd = Inr cd"
| "match_iters core_centers j (iter_centers # rest) cd =
     ebind (match_clusters core_centers j iter_centers 0 cd) (\<lambda>cd'.
     match_iters core_centers (Suc j) rest cd')"

text \<open>
  \<^verbatim>\<open>sep_clusters[j][i] in clusdict[sep_clusters[-1][i]][j]\<close>; the left operand is
  evaluated first.
\<close>

definition in_clusdict ::
  "clusdict \<Rightarrow> int list list \<Rightarrow> int list \<Rightarrow> nat \<Rightarrow> nat \<Rightarrow> error + bool" where
  "in_clusdict cd sep_clusters final i j =
     ebind (list_get sep_clusters j) (\<lambda>row.
     ebind (list_get row i) (\<lambda>lbl.
     ebind (list_get final i) (\<lambda>fin.
       case cd fin of
         None \<Rightarrow> Inl KeyError
       | Some inner \<Rightarrow>
           (case inner j of
              None \<Rightarrow> Inl KeyError
            | Some l \<Rightarrow> Inr (lbl \<in> set (map int l))))))"

text \<open>The inner loop over \<^verbatim>\<open>range(0, len(sep_clusters) - 1)\<close> for node \<open>i\<close>.\<close>

fun clusprob_loop ::
  "clusdict \<Rightarrow> int list list \<Rightarrow> int list \<Rightarrow> nat \<Rightarrow> nat list \<Rightarrow> real \<Rightarrow> error + real" where
  "clusprob_loop cd sep_clusters final i [] p = Inr p"
| "clusprob_loop cd sep_clusters final i (j # js) p =
     ebind (in_clusdict cd sep_clusters final i j) (\<lambda>b.
     clusprob_loop cd sep_clusters final i js
       (if b then p + 1 / real (length sep_clusters - 1) else p))"

text \<open>The outer loop over \<^verbatim>\<open>range(0, len(sep_clusters[-1]))\<close>.\<close>

fun clusprobs_loop ::
  "clusdict \<Rightarrow> int list list \<Rightarrow> int list \<Rightarrow> nat list \<Rightarrow> real list \<Rightarrow> error + real list" where
  "clusprobs_loop cd sep_clusters final [] clusprobs = Inr clusprobs"
| "clusprobs_loop cd sep_clusters final (i # ns) clusprobs =
     ebind (clusprob_loop cd sep_clusters final i [0..<length sep_clusters - 1] 0) (\<lambda>p.
     clusprobs_loop cd sep_clusters final ns (clusprobs @ [p]))"

text \<open>
  Lines 280 to 301: the centroid matching and the stability loop, which yield the final
  snapshot's labels and \<^verbatim>\<open>clusprobs\<close>.
\<close>

definition cluster_fuzzy_clusprobs ::
  "int \<Rightarrow> int list list \<Rightarrow> real list list list \<Rightarrow> error + int list \<times> real list" where
  "cluster_fuzzy_clusprobs topscore sep_clusters centroids =
     (let clusdict0 = init_clusdict topscore (length centroids) in
      ebind (last_get centroids) (\<lambda>core_centers.
      ebind (match_iters core_centers 0 (butlast centroids) clusdict0) (\<lambda>clusdict.
      ebind (last_get sep_clusters) (\<lambda>final.
      ebind (clusprobs_loop clusdict sep_clusters final [0..<length final] []) (\<lambda>clusprobs.
      Inr (final, clusprobs))))))"

text \<open>
  Lines 302 to 306: \<^verbatim>\<open>bestcluster[np.where(clusprobs < 0.5)] = 100\<close> on the final
  snapshot's labels.
\<close>

definition cluster_fuzzy_assign ::
  "int \<Rightarrow> int list list \<Rightarrow> real list list list \<Rightarrow> error + int list" where
  "cluster_fuzzy_assign topscore sep_clusters centroids =
     ebind (cluster_fuzzy_clusprobs topscore sep_clusters centroids) (\<lambda>(final, clusprobs).
     Inr (map2 (\<lambda>lbl p. if p < 1 / 2 then 100 else lbl) final clusprobs))"

definition cluster_fuzzy ::
  "'s extern \<Rightarrow> (node \<times> node \<Rightarrow> bool) \<Rightarrow> graph \<Rightarrow> (nat \<Rightarrow> node option) \<Rightarrow> real list list list \<Rightarrow>
   int \<Rightarrow> int \<Rightarrow> string \<Rightarrow> ('s, int list) prog" where
  "cluster_fuzzy ext flip g rev_index diffs' max_clusters min_clusters cluster =
     bnd (cluster_fuzzy_diffs ext flip g rev_index max_clusters min_clusters cluster 0 diffs'
            ([], [])) (\<lambda>(difscores, topscores).
     let separating_iters = separating difscores in
     bnd (emit (UsingIterations separating_iters)) (\<lambda>_.
     bnd (pure_step (ebind (last_get separating_iters) (list_get topscores))) (\<lambda>topscore.
     bnd (cluster_fuzzy_refit ext diffs' topscores cluster (tl separating_iters) ([], []))
       (\<lambda>(sep_clusters, centroids).
     pure_step (cluster_fuzzy_assign topscore sep_clusters centroids)))))"


section \<open>central_edge\<close>

text \<open>
  \<^verbatim>\<open>np.percentile(a, q)\<close> with numpy's default linear interpolation on the sorted,
  flattened matrix. A percentile outside \<open>[0, 100]\<close> raises ValueError; the percentile
  of an empty matrix is NaN, for which \<open>None\<close> stands.
\<close>

definition np_percentile :: "real list list \<Rightarrow> real \<Rightarrow> error + real option" where
  "np_percentile a q =
     (if q < 0 \<or> 100 < q then Inl ValueError
      else
        let arr = sort (concat a); n = length arr in
        if n = 0 then Inr None
        else
          let virtual_index = q / 100 * real (n - 1);
              previous = nat \<lfloor>virtual_index\<rfloor>;
              following = min (previous + 1) (n - 1);
              gamma = virtual_index - real previous
          in Inr (Some (arr ! previous + (arr ! following - arr ! previous) * gamma)))"

text \<open>Comparisons with NaN are false.\<close>

definition le_thresh :: "real option \<Rightarrow> real \<Rightarrow> bool" where
  "le_thresh t x = (case t of None \<Rightarrow> False | Some y \<Rightarrow> x \<le> y)"

definition ge_thresh :: "real option \<Rightarrow> real \<Rightarrow> bool" where
  "ge_thresh t x = (case t of None \<Rightarrow> False | Some y \<Rightarrow> x \<ge> y)"

text \<open>\<^verbatim>\<open>np.argwhere\<close> on a matrix: the positions that satisfy a test, row by row.\<close>

definition np_argwhere :: "(real \<Rightarrow> bool) \<Rightarrow> real list list \<Rightarrow> (nat \<times> nat) list" where
  "np_argwhere P a =
     concat (map (\<lambda>i. map (\<lambda>j. (i, j)) (filter (\<lambda>j. P (a ! i ! j)) [0..<length (a ! i)]))
               [0..<length a])"

text \<open>Lines 105 to 108: the two thresholds and the two lists of hub positions.\<close>

definition hub_positions ::
  "real list list \<Rightarrow> real \<Rightarrow>
   error + real option \<times> real option \<times> (nat \<times> nat) list \<times> (nat \<times> nat) list" where
  "hub_positions scoremat percentile =
     ebind (np_percentile scoremat percentile) (\<lambda>negthresh.
     ebind (np_percentile scoremat (100 - percentile)) (\<lambda>posthresh.
     Inr (negthresh, posthresh,
          np_argwhere (le_thresh negthresh) scoremat,
          np_argwhere (ge_thresh posthresh) scoremat)))"

text \<open>
  A Python dict keeps its keys in the order of their first insertion; assigning to a key
  that is present replaces its value in place.
\<close>

fun dict_set :: "('k \<times> 'v) list \<Rightarrow> 'k \<Rightarrow> 'v \<Rightarrow> ('k \<times> 'v) list" where
  "dict_set [] k v = [(k, v)]"
| "dict_set ((k', v') # d) k v =
     (if k' = k then (k, v) # d else (k', v') # dict_set d k v)"

definition dict_get :: "('k \<times> 'v) list \<Rightarrow> 'k \<Rightarrow> error + 'v" where
  "dict_get d k = (case map_of d k of None \<Rightarrow> Inl KeyError | Some v \<Rightarrow> Inr v)"

text \<open>\<^verbatim>\<open>adj_index\<close>: the loop assigns position \<open>i\<close> to the \<open>i\<close>-th node.\<close>

definition make_adj_index :: "graph \<Rightarrow> (node \<times> nat) list" where
  "make_adj_index g =
     fold (\<lambda>i d. dict_set d (nodes g ! i) i) [0..<length (nodes g)] []"

text \<open>\<^verbatim>\<open>score[(a, b)]\<close> on the matrix of reliability scores.\<close>

definition matrix_get :: "real list list \<Rightarrow> nat \<Rightarrow> nat \<Rightarrow> error + real" where
  "matrix_get m a b = ebind (list_get m a) (\<lambda>row. list_get row b)"

text \<open>
  The loops over \<^verbatim>\<open>neghubs\<close> and \<^verbatim>\<open>poshubs\<close>: they fill \<^verbatim>\<open>edge_vals\<close> with
  the label and, when permutations were run, \<^verbatim>\<open>edge_scores\<close> with the score.
\<close>

fun label_hubs ::
  "graph \<Rightarrow> (node \<times> nat) list \<Rightarrow> real list list option \<Rightarrow> string \<Rightarrow> (nat \<times> nat) list \<Rightarrow>
   ((node \<times> node) \<times> string) list \<times> ((node \<times> node) \<times> real) list \<Rightarrow>
   error + ((node \<times> node) \<times> string) list \<times> ((node \<times> node) \<times> real) list" where
  "label_hubs g adj_index score label [] acc = Inr acc"
| "label_hubs g adj_index score label ((i, j) # hubs) (edge_vals, edge_scores) =
     ebind (list_get (nodes g) i) (\<lambda>node1.
     ebind (list_get (nodes g) j) (\<lambda>node2.
     let edge_vals' = dict_set edge_vals (node1, node2) label in
     case score of
       None \<Rightarrow> label_hubs g adj_index score label hubs (edge_vals', edge_scores)
     | Some sc \<Rightarrow>
         ebind (dict_get adj_index node1) (\<lambda>a.
         ebind (dict_get adj_index node2) (\<lambda>b.
         ebind (matrix_get sc a b) (\<lambda>x.
         label_hubs g adj_index score label hubs
           (edge_vals', dict_set edge_scores (node1, node2) x))))))"

text \<open>
  \<^verbatim>\<open>nx.set_edge_attributes(graph, values, name)\<close> assigns \<^verbatim>\<open>G[u][v][name]\<close> for
  each key in the order of the dict and skips the keys that are not edges of the graph.
\<close>

fun set_edge_hub :: "graph \<Rightarrow> ((node \<times> node) \<times> string) list \<Rightarrow> graph" where
  "set_edge_hub g [] = g"
| "set_edge_hub g (((u, v), val) # vals) =
     (case find (same_edge u v) (edges g) of
        None \<Rightarrow> set_edge_hub g vals
      | Some (a, b, w) \<Rightarrow> set_edge_hub (g\<lparr>edge_hub := (edge_hub g)((a, b) \<mapsto> val)\<rparr>) vals)"

fun set_edge_reliability :: "graph \<Rightarrow> ((node \<times> node) \<times> real) list \<Rightarrow> graph" where
  "set_edge_reliability g [] = g"
| "set_edge_reliability g (((u, v), val) # vals) =
     (case find (same_edge u v) (edges g) of
        None \<Rightarrow> set_edge_reliability g vals
      | Some (a, b, w) \<Rightarrow>
          set_edge_reliability (g\<lparr>edge_reliability := (edge_reliability g)((a, b) \<mapsto> val)\<rparr>)
            vals)"

text \<open>central_edge mutates the graph; the model returns the labelled graph.\<close>

definition central_edge ::
  "'s extern \<Rightarrow> graph \<Rightarrow> real \<Rightarrow> int \<Rightarrow> real \<Rightarrow> ('s, graph) prog" where
  "central_edge ext g percentile permutations error_rate =
     bnd (pure_step (diffusion ext (nodes g) (edges g) None 3 False))
       (\<lambda>(scoremat, memory, diffs').
     bnd (pure_step (hub_positions scoremat percentile))
       (\<lambda>(negthresh, posthresh, neghubs, poshubs).
     let adj_index = make_adj_index g in
     bnd (if permutations > 0
          then bnd (call_ext (perm_graph ext g scoremat percentile permutations poshubs neghubs
                                error_rate)) (\<lambda>sc. ret (Some sc))
          else ret None) (\<lambda>score.
     bnd (pure_step (label_hubs g adj_index score ''negative hub'' neghubs ([], [])))
       (\<lambda>acc.
     bnd (pure_step (label_hubs g adj_index score ''positive hub'' poshubs acc))
       (\<lambda>(edge_vals, edge_scores).
     let g' = set_edge_hub g edge_vals in
     ret (if permutations > 0 then set_edge_reliability g' edge_scores else g'))))))"


section \<open>cluster_graph\<close>

text \<open>
  \<^verbatim>\<open>rev_index\<close> as cluster_graph builds it: position \<open>i\<close> is mapped to the \<open>i\<close>-th
  node of the graph.
\<close>

definition make_rev_index :: "graph \<Rightarrow> nat \<Rightarrow> node option" where
  "make_rev_index g = (\<lambda>i. if i < length (nodes g) then Some (nodes g ! i) else None)"

text \<open>The loop that fills \<^verbatim>\<open>clusdict\<close> with \<^verbatim>\<open>int(bestcluster[i])\<close>.\<close>

fun node_clusters ::
  "node list \<Rightarrow> int list \<Rightarrow> nat list \<Rightarrow> (node \<times> int) list \<Rightarrow> error + (node \<times> int) list" where
  "node_clusters ns bestcluster [] clusdict = Inr clusdict"
| "node_clusters ns bestcluster (i # rest) clusdict =
     ebind (list_get bestcluster i) (\<lambda>c.
     node_clusters ns bestcluster rest (dict_set clusdict (ns ! i) c))"

definition cluster_graph ::
  "'s extern \<Rightarrow> (node \<times> node \<Rightarrow> bool) \<Rightarrow> graph \<Rightarrow> real \<Rightarrow> int \<Rightarrow> int \<Rightarrow> int \<Rightarrow> string \<Rightarrow>
   ('s, graph \<times> real list list) prog" where
  "cluster_graph ext flip g limit max_clusters min_clusters iterations cluster =
     (let rev_index = make_rev_index g in
      bnd (pure_step (diffusion ext (nodes g) (edges g) (Some limit) iterations True))
        (\<lambda>(scoremat, memory, diffs').
      bnd (if \<not> memory
           then cluster_hard ext flip g rev_index scoremat max_clusters min_clusters cluster
           else cluster_fuzzy ext flip g rev_index diffs' max_clusters min_clusters cluster)
        (\<lambda>bestcluster.
      bnd (pure_step (node_clusters (nodes g) bestcluster [0..<length (nodes g)] []))
        (\<lambda>clusdict.
      ret (g\<lparr>node_cluster := (\<lambda>n. case map_of clusdict n of
                                       Some c \<Rightarrow> Some c
                                     | None \<Rightarrow> node_cluster g n)\<rparr>,
           scoremat)))))"


section \<open>The specification of the score\<close>

text \<open>
  Two nodes lie inside one cluster when two positions with the same cluster id are
  mapped to them.
\<close>

definition inside_cluster :: "int list \<Rightarrow> (nat \<Rightarrow> node option) \<Rightarrow> node \<Rightarrow> node \<Rightarrow> bool" where
  "inside_cluster clusters rev_index u v =
     list_ex (\<lambda>i. list_ex (\<lambda>j. clusters ! i = clusters ! j \<and>
                               rev_get rev_index i = u \<and> rev_get rev_index j = v)
                     [0..<length clusters])
       [0..<length clusters]"

text \<open>
  The sign of the term of one edge, as section 4.2 of the specification words it: inside
  a cluster a negative weight is penalised, across clusters a positive weight is; every
  other edge is rewarded.
\<close>

definition edge_sign :: "int list \<Rightarrow> (nat \<Rightarrow> node option) \<Rightarrow> node \<times> node \<times> real \<Rightarrow> real" where
  "edge_sign clusters rev_index e =
     (case e of (u, v, w) \<Rightarrow>
        if inside_cluster clusters rev_index u v
        then (if w < 0 then 1 else - 1)
        else (if w > 0 then 1 else - 1))"

text \<open>Auxiliary notions for the proofs about the scorer.\<close>

definition in_sub ::
  "graph \<Rightarrow> int list \<Rightarrow> (nat \<Rightarrow> node option) \<Rightarrow> int \<Rightarrow> node \<times> node \<times> real \<Rightarrow> bool" where
  "in_sub g cl ri cid e =
     (fst e \<in> set (map (rev_get ri) (cluster_members cl cid)) \<and> fst e \<in> set (nodes g) \<and>
      fst (snd e) \<in> set (map (rev_get ri) (cluster_members cl cid)) \<and>
      fst (snd e) \<in> set (nodes g))"

definition orient :: "(node \<times> node \<Rightarrow> bool) \<Rightarrow> node \<times> node \<times> real \<Rightarrow> node \<times> node \<times> real" where
  "orient flip e =
     (if flip (fst e, fst (snd e)) then (fst (snd e), fst e, snd (snd e)) else e)"

definition inside ::
  "graph \<Rightarrow> int list \<Rightarrow> (nat \<Rightarrow> node option) \<Rightarrow> node \<times> node \<times> real \<Rightarrow> bool" where
  "inside g cl ri e = (\<exists>cid\<in>set (remdups cl). in_sub g cl ri cid e)"

section \<open>Concrete inputs\<close>

text \<open>A subgraph view that swaps no edge, and one that swaps every edge.\<close>

definition no_flip :: "node \<times> node \<Rightarrow> bool" where
  "no_flip e = False"


definition demo_graph :: graph where
  "demo_graph =
     \<lparr>nodes = [NStr ''a'', NStr ''b'', NStr ''c'', NStr ''d''],
      edges = [(NStr ''a'', NStr ''b'', 1), (NStr ''c'', NStr ''d'', - 2),
               (NStr ''b'', NStr ''c'', 3), (NStr ''a'', NStr ''d'', - 1),
               (NStr ''a'', NStr ''c'', 0)],
      edge_hub = (\<lambda>_. None), edge_reliability = (\<lambda>_. None),
      node_cluster = (\<lambda>_. None)\<rparr>"

definition no_edges_graph :: graph where
  "no_edges_graph =
     \<lparr>nodes = [NStr ''a'', NStr ''b''], edges = [],
      edge_hub = (\<lambda>_. None), edge_reliability = (\<lambda>_. None),
      node_cluster = (\<lambda>_. None)\<rparr>"


text \<open>
  Stand-ins for the collaborators. The random state counts the calls. k-means reads the
  label of a row from its first entry, capped at \<open>k - 1\<close>, and places centroid \<open>c\<close> at
  \<open>(c, 0, 0, 0)\<close>; the random assignment separates the fourth node from the first three;
  diffusion returns the weighted adjacency matrix and no memory effect.
\<close>

definition demo_labels :: "int \<Rightarrow> real list list \<Rightarrow> int list" where
  "demo_labels k m = map (\<lambda>row. min \<lfloor>hd row\<rfloor> (k - 1)) m"

definition demo_centers :: "int \<Rightarrow> real list list" where
  "demo_centers k = map (\<lambda>c. [real c, 0, 0, 0]) [0..<nat k]"

definition adjacency :: "node list \<Rightarrow> (node \<times> node \<times> real) list \<Rightarrow> real list list" where
  "adjacency ns es =
     map (\<lambda>u. map (\<lambda>v. case find (same_edge u v) es of None \<Rightarrow> 0 | Some (a, b, w) \<Rightarrow> w) ns) ns"

definition demo_ext :: "nat extern" where
  "demo_ext =
     \<lparr>KMeans_fit_predict = (\<lambda>k m s.
        if k < 1 \<or> int (length m) < k then Inl ValueError else Inr (demo_labels k m, Suc s)),
      KMeans_cluster_centers = (\<lambda>k m s.
        if k < 1 \<or> int (length m) < k then Inl ValueError else Inr (demo_centers k, Suc s)),
      random_randint = (\<lambda>n s. (map (\<lambda>i. if i < 3 then 0 else 1) [0..<n], Suc s)),
      diffusion = (\<lambda>ns es limit iterations norm. Inr (adjacency ns es, False, [])),
      perm_graph = (\<lambda>g m p n pos neg e s. Inl ValueError)\<rparr>"

definition snapshot :: "real list \<Rightarrow> real list list" where
  "snapshot col = map (\<lambda>x. [x, 0, 0, 0]) col"

definition world0 :: "nat world" where
  "world0 = \<lparr>rng = 0, stdout = []\<rparr>"

text \<open>Diffusion sequences with no, two and five separating snapshots.\<close>

definition demo_diffs_none :: "real list list list" where
  "demo_diffs_none = [snapshot [0, 0, 1, 1]]"

definition demo_diffs_two :: "real list list list" where
  "demo_diffs_two = [snapshot [0, 0, 1, 1], snapshot [0, 0, 0, 1], snapshot [0, 0, 2, 1]]"



section \<open>The specification of the stability fraction\<close>








section \<open>Auxiliary notions for central_edge\<close>

text \<open>
  What central_edge computes when no permutations are run, before it labels the graph:
  the two dicts. Then the labels that \<open>set_edge_hub\<close> writes, as one map.
\<close>

definition central_edge_vals ::
  "'s extern \<Rightarrow> graph \<Rightarrow> real \<Rightarrow>
   error + ((node \<times> node) \<times> string) list \<times> ((node \<times> node) \<times> real) list" where
  "central_edge_vals ext g percentile =
     ebind (diffusion ext (nodes g) (edges g) None 3 False) (\<lambda>(scoremat, memory, diffs').
     ebind (hub_positions scoremat percentile) (\<lambda>(negthresh, posthresh, neghubs, poshubs).
     ebind (label_hubs g (make_adj_index g) None ''negative hub'' neghubs ([], [])) (\<lambda>acc.
     label_hubs g (make_adj_index g) None ''positive hub'' poshubs acc)))"

fun hub_updates ::
  "(node \<times> node \<times> real) list \<Rightarrow> ((node \<times> node) \<times> string) list \<Rightarrow>
   node \<times> node \<Rightarrow> string option" where
  "hub_updates es [] = Map.empty"
| "hub_updates es (((u, v), val) # vals) =
     (case find (same_edge u v) es of
        None \<Rightarrow> hub_updates es vals
      | Some (a, b, w) \<Rightarrow> [(a, b) \<mapsto> val] ++ hub_updates es vals)"

text \<open>The labels of the concrete graph at percentile 10.\<close>

definition demo_vals :: "((node \<times> node) \<times> string) list" where
  "demo_vals =
     [((NStr ''c'', NStr ''d''), ''negative hub''), ((NStr ''d'', NStr ''c''), ''negative hub''),
      ((NStr ''b'', NStr ''c''), ''positive hub''), ((NStr ''c'', NStr ''b''), ''positive hub'')]"


section \<open>Running programs\<close>

lemma bnd_pure_Inr [simp]: "bnd (pure_step (Inr x)) f w = f x w"
  by (simp add: bnd_def pure_step_def)

lemma bnd_pure_Inl [simp]: "bnd (pure_step (Inl e)) f w = (Inl e, w)"
  by (simp add: bnd_def pure_step_def)

lemma bnd_ret [simp]: "bnd (ret x) f w = f x w"
  by (simp add: bnd_def ret_def)

lemma bnd_raise [simp]: "bnd (raise e) f w = (Inl e, w)"
  by (simp add: bnd_def raise_def)

lemma bnd_emit [simp]: "bnd (emit ev) f w = f () (w\<lparr>stdout := stdout w @ [ev]\<rparr>)"
  by (simp add: bnd_def emit_def)

lemma bnd_call_total:
  "bnd (call_total f) k w = (case f (rng w) of (x, s') \<Rightarrow> k x (w\<lparr>rng := s'\<rparr>))"
  by (simp add: bnd_def call_total_def split: prod.splits)

lemma bnd_call_ext:
  "bnd (call_ext f) k w =
     (case f (rng w) of Inl e \<Rightarrow> (Inl e, w) | Inr (x, s') \<Rightarrow> k x (w\<lparr>rng := s'\<rparr>))"
  by (simp add: bnd_def call_ext_def split: sum.splits prod.splits)

lemma raise_apply [simp]: "raise e w = (Inl e, w)"
  by (simp add: raise_def)

lemma ret_apply [simp]: "ret x w = (Inr x, w)"
  by (simp add: ret_def)

lemma emit_apply [simp]: "emit ev w = (Inr (), w\<lparr>stdout := stdout w @ [ev]\<rparr>)"
  by (simp add: emit_def)

lemma pure_step_apply [simp]: "pure_step r w = (r, w)"
  by (simp add: pure_step_def)


section \<open>The score as a sum over the edges\<close>

lemma fold_inside:
  "fold (\<lambda>e s. if snd (snd e) < 0 then s + c else s - c) xs s =
   s + (\<Sum>e\<leftarrow>xs. if snd (snd e) < (0::real) then (c::real) else - c)"
  by (induction xs arbitrary: s) (simp_all add: algebra_simps)

lemma subgraph_edges_alt:
  "subgraph_edges flip g (map (rev_get ri) (cluster_members cl cid)) =
   map (orient flip) (filter (in_sub g cl ri cid) (edges g))"
  unfolding subgraph_edges_def in_sub_def orient_def
  by (simp add: split_def del: set_map)

lemma snd_orient [simp]: "snd (snd (orient flip e)) = snd (snd e)"
  by (simp add: orient_def)

lemma cluster_loop_eq:
  "cluster_loop flip g cl ri c ids (sp, es) =
   (sp + (\<Sum>cid\<leftarrow>ids. \<Sum>e\<leftarrow>filter (in_sub g cl ri cid) (edges g).
              if snd (snd e) < 0 then c else - c),
    es @ concat (map (\<lambda>cid. map (\<lambda>e. (fst (orient flip e), fst (snd (orient flip e))))
              (filter (in_sub g cl ri cid) (edges g))) ids))"
proof (induction ids arbitrary: sp es)
  case Nil
  then show ?case by simp
next
  case (Cons cid ids)
  show ?case
    by (simp add: Cons.IH Let_def subgraph_edges_alt split_def fold_inside comp_def
             algebra_simps del: set_map)
qed

lemma sum_if_unique:
  "distinct ids \<Longrightarrow> (\<And>a b. a \<in> set ids \<Longrightarrow> b \<in> set ids \<Longrightarrow> P a \<Longrightarrow> P b \<Longrightarrow> a = b) \<Longrightarrow>
   (\<Sum>cid\<leftarrow>ids. if P cid then (x::real) else 0) = (if \<exists>cid\<in>set ids. P cid then x else 0)"
proof (induction ids)
  case Nil
  then show ?case by simp
next
  case (Cons a ids)
  have ih: "(\<Sum>cid\<leftarrow>ids. if P cid then x else 0) = (if \<exists>cid\<in>set ids. P cid then x else 0)"
    using Cons by auto
  show ?case
  proof (cases "P a")
    case True
    have "\<not> (\<exists>cid\<in>set ids. P cid)"
      using Cons.prems True by (metis distinct.simps(2) list.set_intros(1) list.set_intros(2))
    then show ?thesis using True ih by simp
  next
    case False
    then show ?thesis using ih by simp
  qed
qed

lemma sum_filter_swap:
  assumes "distinct ids"
    and "\<And>a b e. a \<in> set ids \<Longrightarrow> b \<in> set ids \<Longrightarrow> e \<in> set es \<Longrightarrow> P a e \<Longrightarrow> P b e \<Longrightarrow> a = b"
  shows "(\<Sum>cid\<leftarrow>ids. \<Sum>e\<leftarrow>filter (P cid) es. (f e :: real)) =
         (\<Sum>e\<leftarrow>filter (\<lambda>e. \<exists>cid\<in>set ids. P cid e) es. f e)"
  using assms(2)
proof (induction es)
  case Nil
  then show ?case by simp
next
  case (Cons e es)
  have ih: "(\<Sum>cid\<leftarrow>ids. \<Sum>e\<leftarrow>filter (P cid) es. f e) =
         (\<Sum>e\<leftarrow>filter (\<lambda>e. \<exists>cid\<in>set ids. P cid e) es. f e)"
    using Cons by auto
  have "\<And>cid. (\<Sum>x\<leftarrow>filter (P cid) (e # es). f x) =
        (if P cid e then f e else 0) + (\<Sum>x\<leftarrow>filter (P cid) es. f x)"
    by simp
  then have split: "(\<Sum>cid\<leftarrow>ids. \<Sum>x\<leftarrow>filter (P cid) (e # es). f x) =
        (\<Sum>cid\<leftarrow>ids. if P cid e then f e else 0) + (\<Sum>cid\<leftarrow>ids. \<Sum>x\<leftarrow>filter (P cid) es. f x)"
    by (simp only: sum_list_addf)
  have "(\<Sum>cid\<leftarrow>ids. if P cid e then f e else 0) = (if \<exists>cid\<in>set ids. P cid e then f e else 0)"
    by (rule sum_if_unique [OF assms(1)]) (use Cons.prems in auto)
  then show ?case using split ih by simp
qed


lemma in_sub_unique:
  assumes inj: "inj_on (rev_get ri) {..<length cl}"
    and a: "in_sub g cl ri a e" and b: "in_sub g cl ri b e"
  shows "a = b"
proof -
  from a obtain i where i: "i < length cl" "cl ! i = a" "rev_get ri i = fst e"
    by (auto simp: in_sub_def cluster_members_def)
  from b obtain j where j: "j < length cl" "cl ! j = b" "rev_get ri j = fst e"
    by (auto simp: in_sub_def cluster_members_def)
  have "i = j" using inj i j by (auto simp: inj_on_def)
  then show ?thesis using i j by simp
qed

lemma inside_iff:
  assumes "fst e \<in> set (nodes g)" "fst (snd e) \<in> set (nodes g)"
  shows "inside g cl ri e = inside_cluster cl ri (fst e) (fst (snd e))"
proof
  assume "inside g cl ri e"
  then obtain i j where "i < length cl" "j < length cl" "cl ! i = cl ! j"
      "rev_get ri i = fst e" "rev_get ri j = fst (snd e)"
    by (auto simp: inside_def in_sub_def cluster_members_def)
  then show "inside_cluster cl ri (fst e) (fst (snd e))"
    unfolding inside_cluster_def list_ex_iff by force
next
  assume "inside_cluster cl ri (fst e) (fst (snd e))"
  then obtain i j where ij: "i < length cl" "j < length cl" "cl ! i = cl ! j"
      "rev_get ri i = fst e" "rev_get ri j = fst (snd e)"
    unfolding inside_cluster_def list_ex_iff by auto
  have "cl ! i \<in> set (remdups cl)" using ij(1) by simp
  moreover have "in_sub g cl ri (cl ! i) e"
    unfolding in_sub_def cluster_members_def using ij assms by force
  ultimately show "inside g cl ri e" unfolding inside_def by blast
qed

lemma cut_filter_iff:
  assumes e: "e \<in> set (edges g)"
    and es_def: "es = concat (map (\<lambda>cid. map (\<lambda>e. (fst (orient flip e), fst (snd (orient flip e))))
              (filter (in_sub g cl ri cid) (edges g))) (remdups cl))"
  shows "((fst e, fst (snd e)) \<notin> set es \<and> (fst (snd e), fst e) \<notin> set es) = (\<not> inside g cl ri e)"
proof -
  have mem: "\<And>p. p \<in> set es \<longleftrightarrow>
      (\<exists>e'\<in>set (edges g). inside g cl ri e' \<and> p = (fst (orient flip e'), fst (snd (orient flip e'))))"
    unfolding es_def inside_def by auto
  have or_cases: "\<And>e'. (fst (orient flip e'), fst (snd (orient flip e'))) = (fst e', fst (snd e')) \<or>
       (fst (orient flip e'), fst (snd (orient flip e'))) = (fst (snd e'), fst e')"
    by (simp add: orient_def)
  obtain u v w where uvw: "e = (u, v, w)" by (cases e) auto
  show ?thesis
  proof (cases "inside g cl ri e")
    case True
    have "(fst (orient flip e), fst (snd (orient flip e))) \<in> set es"
      using mem e True by blast
    then show ?thesis using True or_cases [of e] by auto
  next
    case False
    have "\<And>p. p \<in> set es \<Longrightarrow> p \<noteq> (u, v) \<and> p \<noteq> (v, u)"
    proof -
      fix p assume "p \<in> set es"
      then obtain e' where e': "e' \<in> set (edges g)" "inside g cl ri e'"
          "p = (fst (orient flip e'), fst (snd (orient flip e')))"
        using mem by blast
      obtain a b x where abx: "e' = (a, b, x)" by (cases e') auto
      have "p = (a, b) \<or> p = (b, a)" using or_cases [of e'] e'(3) abx by auto
      moreover have "\<not> inside g cl ri (a, b, x) \<or> ((a, b) \<noteq> (u, v) \<and> (a, b) \<noteq> (v, u))"
        using False uvw
        by (auto simp: inside_def in_sub_def)
      ultimately show "p \<noteq> (u, v) \<and> p \<noteq> (v, u)" using e'(2) abx by auto
    qed
    then show ?thesis using False uvw by auto
  qed
qed

lemma find_simple:
  "simple_edges es \<Longrightarrow> (u, v, w) \<in> set es \<Longrightarrow> find (same_edge u v) es = Some (u, v, w)"
proof (induction es)
  case Nil
  then show ?case by simp
next
  case (Cons e es)
  obtain a b x where abx: "e = (a, b, x)" by (cases e) auto
  show ?case
  proof (cases "e = (u, v, w)")
    case True
    then show ?thesis by (simp add: same_edge_def)
  next
    case False
    then have mem: "(u, v, w) \<in> set es" using Cons.prems by auto
    have "\<not> same_edge a b (u, v, w)"
      using Cons.prems(1) mem abx by (auto simp: list_ex_iff)
    then have "\<not> same_edge u v e" using abx by (auto simp: same_edge_def)
    then show ?thesis using Cons mem abx by auto
  qed
qed

lemma edge_weight_simple:
  "simple_edges (edges g) \<Longrightarrow> e \<in> set (edges g) \<Longrightarrow>
   edge_weight g (fst e) (fst (snd e)) = Inr (snd (snd e))"
  using find_simple [of "edges g" "fst e" "fst (snd e)" "snd (snd e)"]
  by (simp add: edge_weight_def split_def)

lemma cut_loop_eq:
  "simple_edges (edges g) \<Longrightarrow> set xs \<subseteq> set (edges g) \<Longrightarrow>
   cut_loop g c (map (\<lambda>e. (fst e, fst (snd e))) xs) sp =
   Inr (sp + (\<Sum>e\<leftarrow>xs. if snd (snd e) > 0 then c else - c))"
proof (induction xs arbitrary: sp)
  case Nil
  then show ?case by simp
next
  case (Cons e xs)
  then show ?case
    using edge_weight_simple [of g e] by (simp add: algebra_simps)
qed


lemma sum_filter_split:
  "(\<Sum>e\<leftarrow>filter P xs. f e) + (\<Sum>e\<leftarrow>filter (\<lambda>e. \<not> P e) xs. h e) =
   (\<Sum>e\<leftarrow>xs. if P e then f e else (h e :: real))"
  by (induction xs) simp_all

lemma sparsity_score_sum:
  assumes wf: "wf_graph g" and ne: "edges g \<noteq> []"
    and inj: "inj_on (rev_get ri) {..<length cl}"
  shows "sparsity_score flip g cl ri =
         Inr ((\<Sum>e\<leftarrow>edges g. edge_sign cl ri e) / real (length (edges g)))"
proof -
  define c where "c = 1 / real (length (edges g))"
  define es where "es = concat (map (\<lambda>cid. map (\<lambda>e. (fst (orient flip e), fst (snd (orient flip e))))
              (filter (in_sub g cl ri cid) (edges g))) (remdups cl))"
  define s_in where "s_in = (\<Sum>cid\<leftarrow>remdups cl. \<Sum>e\<leftarrow>filter (in_sub g cl ri cid) (edges g).
              if snd (snd e) < 0 then c else - c)"
  have simple: "simple_edges (edges g)" using wf by (simp add: wf_graph_def)
  have ends: "\<And>e. e \<in> set (edges g) \<Longrightarrow> fst e \<in> set (nodes g) \<and> fst (snd e) \<in> set (nodes g)"
    using wf by (auto simp: wf_graph_def list_all_iff)
  have loop: "cluster_loop flip g cl ri c (remdups cl) (0, []) = (s_in, es)"
    by (simp add: cluster_loop_eq s_in_def es_def)
  have cuts: "map (\<lambda>(u, v, w). (u, v))
          (filter (\<lambda>(u, v, w). (u, v) \<notin> set es \<and> (v, u) \<notin> set es) (edges g)) =
        map (\<lambda>e. (fst e, fst (snd e))) (filter (\<lambda>e. \<not> inside g cl ri e) (edges g))"
  proof -
    have "filter (\<lambda>(u, v, w). (u, v) \<notin> set es \<and> (v, u) \<notin> set es) (edges g) =
          filter (\<lambda>e. \<not> inside g cl ri e) (edges g)"
      by (rule filter_cong [OF refl])
         (use cut_filter_iff [OF _ es_def] in \<open>simp add: split_def\<close>)
    then show ?thesis by (simp add: split_def)
  qed
  have score: "sparsity_score flip g cl ri =
      cut_loop g c (map (\<lambda>e. (fst e, fst (snd e))) (filter (\<lambda>e. \<not> inside g cl ri e) (edges g))) s_in"
    unfolding sparsity_score_def using ne
    by (simp add: Let_def c_def [symmetric] loop cuts)
  have s_in: "s_in = (\<Sum>e\<leftarrow>filter (inside g cl ri) (edges g). if snd (snd e) < 0 then c else - c)"
    unfolding s_in_def inside_def [abs_def]
    by (rule sum_filter_swap) (use in_sub_unique [OF inj] in auto)
  have tm: "\<And>e. e \<in> set (edges g) \<Longrightarrow>
      (if inside g cl ri e then (if snd (snd e) < 0 then c else - c)
       else (if snd (snd e) > 0 then c else - c)) = edge_sign cl ri e * c"
    using ends by (simp add: inside_iff edge_sign_def split_def)
  have "sparsity_score flip g cl ri =
      Inr (s_in + (\<Sum>e\<leftarrow>filter (\<lambda>e. \<not> inside g cl ri e) (edges g). if snd (snd e) > 0 then c else - c))"
    unfolding score by (rule cut_loop_eq [OF simple]) auto
  also have "s_in + (\<Sum>e\<leftarrow>filter (\<lambda>e. \<not> inside g cl ri e) (edges g). if snd (snd e) > 0 then c else - c) =
      (\<Sum>e\<leftarrow>edges g. if inside g cl ri e then (if snd (snd e) < 0 then c else - c)
       else (if snd (snd e) > 0 then c else - c))"
    unfolding s_in by (rule sum_filter_split)
  also have "\<dots> = (\<Sum>e\<leftarrow>edges g. edge_sign cl ri e * c)"
    by (rule arg_cong [where f = sum_list], rule map_cong [OF refl]) (rule tm)
  also have "\<dots> = (\<Sum>e\<leftarrow>edges g. edge_sign cl ri e) / real (length (edges g))"
    by (simp only: sum_list_mult_const) (simp add: c_def)
  finally show ?thesis .
qed





lemma make_rev_index_inj:
  assumes "distinct (nodes g)" and "length cl \<le> length (nodes g)"
  shows "inj_on (rev_get (make_rev_index g)) {..<length cl}"
  using assms
  by (auto simp: inj_on_def rev_get_def make_rev_index_def nth_eq_iff_index_eq)



text \<open>
  Claim C9. An edge of weight exactly 0 subtracts the unit \<open>1/|E|\<close> from the score,
  whatever the assignment: the score is the sum of the terms of the other edges, minus
  one unit. The edge is not penalised inside a cluster (its weight is not negative) nor
  as a cut edge (its weight is not positive).
\<close>

theorem zero_weight_edge_subtracts_unit:
  assumes "wf_graph g" and "edges g = es1 @ (u, v, 0) # es2"
    and "inj_on (rev_get rev_index) {..<length clusters}"
  shows "sparsity_score flip g clusters rev_index =
           Inr ((\<Sum>e\<leftarrow>es1 @ es2. edge_sign clusters rev_index e * (1 / real (length (edges g))))
                - 1 / real (length (edges g))) \<and>
         edge_sign clusters rev_index (u, v, 0) = - 1"
proof -
  have ne: "edges g \<noteq> []" using assms(2) by simp
  have zero: "edge_sign clusters rev_index (u, v, 0) = - 1"
    by (simp add: edge_sign_def)
  have "sparsity_score flip g clusters rev_index =
          Inr ((\<Sum>e\<leftarrow>edges g. edge_sign clusters rev_index e) / real (length (edges g)))"
    using assms(1) ne assms(3) by (rule sparsity_score_sum)
  also have "(\<Sum>e\<leftarrow>edges g. edge_sign clusters rev_index e) =
             (\<Sum>e\<leftarrow>es1 @ es2. edge_sign clusters rev_index e) - 1"
    by (simp add: assms(2) zero)
  also have "((\<Sum>e\<leftarrow>es1 @ es2. edge_sign clusters rev_index e) - 1) / real (length (edges g)) =
             (\<Sum>e\<leftarrow>es1 @ es2. edge_sign clusters rev_index e * (1 / real (length (edges g))))
                - 1 / real (length (edges g))"
    by (simp only: sum_list_mult_const) (simp add: diff_divide_distrib)
  finally show ?thesis using zero by simp
qed

theorem zero_weight_edge_subtracts_unit_witness:
  "(wf_graph demo_graph \<and>
    edges demo_graph =
      [(NStr ''a'', NStr ''b'', 1), (NStr ''c'', NStr ''d'', - 2),
       (NStr ''b'', NStr ''c'', 3), (NStr ''a'', NStr ''d'', - 1)] @
      (NStr ''a'', NStr ''c'', 0) # [] \<and>
    inj_on (rev_get (make_rev_index demo_graph)) {..<length [0, 0, 0, 1 :: int]}) \<and>
   (sparsity_score no_flip demo_graph [0, 0, 0, 1] (make_rev_index demo_graph) =
      Inr ((\<Sum>e\<leftarrow>[(NStr ''a'', NStr ''b'', 1), (NStr ''c'', NStr ''d'', - 2),
                 (NStr ''b'', NStr ''c'', 3), (NStr ''a'', NStr ''d'', - 1)] @ [].
              edge_sign [0, 0, 0, 1] (make_rev_index demo_graph) e *
              (1 / real (length (edges demo_graph))))
           - 1 / real (length (edges demo_graph))) \<and>
    edge_sign [0, 0, 0, 1] (make_rev_index demo_graph) (NStr ''a'', NStr ''c'', 0) = - 1) \<and>
   sparsity_score no_flip demo_graph [0, 0, 0, 1] (make_rev_index demo_graph) = Inr (- 1)"
proof -
  have wf: "wf_graph demo_graph" by code_simp
  have es: "edges demo_graph =
     [(NStr ''a'', NStr ''b'', 1), (NStr ''c'', NStr ''d'', - 2),
      (NStr ''b'', NStr ''c'', 3), (NStr ''a'', NStr ''d'', - 1)] @
     (NStr ''a'', NStr ''c'', 0) # []"
    by (simp add: demo_graph_def)
  have inj: "inj_on (rev_get (make_rev_index demo_graph)) {..<length [0, 0, 0, 1 :: int]}"
    by (rule make_rev_index_inj) (simp_all add: demo_graph_def)
  have val: "sparsity_score no_flip demo_graph [0, 0, 0, 1] (make_rev_index demo_graph) =
     Inr (- 1)"
    by code_simp
  show ?thesis
    by (rule conjI [OF conjI [OF wf conjI [OF es inj]]
          conjI [OF zero_weight_edge_subtracts_unit [OF wf es inj, of no_flip] val]])
qed


section \<open>cluster_hard and the pipeline\<close>

lemma sparsity_score_no_edges:
  "edges g = [] \<Longrightarrow> sparsity_score flip g clusters rev_index = Inl ZeroDivisionError"
  by (simp add: sparsity_score_def)

lemma cluster_hard_no_edges:
  assumes "edges g = []"
  shows "cluster_hard ext flip g rev_index scoremat max_clusters min_clusters cluster w =
         (Inl ZeroDivisionError,
          w\<lparr>rng := snd (random_randint ext (length scoremat) (rng w))\<rparr>)"
proof -
  obtain rc s' where rc: "random_randint ext (length scoremat) (rng w) = (rc, s')"
    by (cases "random_randint ext (length scoremat) (rng w)") auto
  show ?thesis
    unfolding cluster_hard_def
    by (simp add: bnd_call_total rc sparsity_score_no_edges [OF assms])
qed

lemma cluster_hard_other_method:
  assumes "cluster \<noteq> ''KMeans''"
  shows "\<exists>e w'. cluster_hard ext flip g rev_index scoremat max_clusters min_clusters cluster w =
           (Inl e, w')"
proof -
  obtain rc s' where rc: "random_randint ext (length scoremat) (rng w) = (rc, s')"
    by (cases "random_randint ext (length scoremat) (rng w)") auto
  show ?thesis
    unfolding cluster_hard_def
    by (cases "sparsity_score flip g rc rev_index")
       (simp_all add: bnd_call_total rc assms)
qed

lemma cluster_hard_baseline_wins:
  assumes rc: "random_randint ext (length scoremat) (rng w) = (randomclust, s1)"
    and s0: "sparsity_score flip g randomclust rev_index = Inr score0"
    and sweep: "hard_sweep ext flip g rev_index scoremat [min_clusters..max_clusters] [score0]
              (w\<lparr>rng := s1, stdout := stdout w @ [RandomSparsity score0]\<rparr>) = (Inr scores, w2)"
    and win: "np_argmin scores = Inr 0"
  shows "cluster_hard ext flip g rev_index scoremat max_clusters min_clusters ''KMeans'' w =
         call_ext (KMeans_fit_predict ext (min_clusters - 1) scoremat)
           (w2\<lparr>stdout := stdout w2 @ [WarnRandomBest]\<rparr>)"
  unfolding cluster_hard_def
  by (simp add: bnd_call_total rc s0 win Let_def) (simp add: bnd_def sweep win)

lemma cluster_graph_no_edges:
  assumes "edges g = []"
    and "diffusion ext (nodes g) (edges g) (Some limit) iterations True =
           Inr (scoremat, False, diffs')"
  shows "fst (cluster_graph ext flip g limit max_clusters min_clusters iterations cluster w) =
         Inl ZeroDivisionError"
  unfolding cluster_graph_def
  by (simp add: assms(2) Let_def bnd_def cluster_hard_no_edges [OF assms(1)])


text \<open>
  Claim C2 asks for a fit with exactly \<open>min_clusters\<close> clusters when the random
  assignment attains the lowest score. The code writes the warning and then fits with
  \<open>topscore = min_clusters - 1\<close> clusters. Below, the random assignment scores \<open>-1\<close>
  against \<open>-1/5\<close> and \<open>1/5\<close> for k = 2 and k = 3: the result is the fit with one
  cluster, not the fit with \<open>min_clusters = 2\<close> clusters.
\<close>

theorem cluster_hard_baseline_fits_one_less:
  "cluster_hard demo_ext no_flip demo_graph (make_rev_index demo_graph)
     (snapshot [0, 1, 2, 2]) 3 2 ''KMeans'' world0 =
     (Inr [0, 0, 0, 0],
      \<lparr>rng = 4,
       stdout = [RandomSparsity (- 1), SparsityLevel 2 (- (1 / 5)), SparsityLevel 3 (1 / 5),
                 WarnRandomBest]\<rparr>) \<and>
   KMeans_fit_predict demo_ext (2 - 1) (snapshot [0, 1, 2, 2]) 3 = Inr ([0, 0, 0, 0], 4) \<and>
   KMeans_fit_predict demo_ext 2 (snapshot [0, 1, 2, 2]) 3 = Inr ([0, 1, 1, 1], 4)"
  by code_simp

text \<open>
  Claim C4 asks for a degraded result when another method than k-means is requested.
  The code writes the warning and then raises at \<^verbatim>\<open>return bestcluster\<close>, a name
  that was never bound.
\<close>

theorem cluster_hard_unsupported_method_raises:
  "cluster_hard demo_ext no_flip demo_graph (make_rev_index demo_graph)
     (snapshot [0, 1, 2, 2]) 3 2 ''DBSCAN'' world0 =
     (Inl UnboundLocalError, \<lparr>rng = 1, stdout = [RandomSparsity (- 1), WarnOnlyKMeans]\<rparr>)"
  by code_simp

text \<open>
  Claim C7 as stated fails: on a graph without edges the scorer divides by zero, and the
  pipeline does not short-circuit.
\<close>

theorem no_edges_counterexample:
  "sparsity_score no_flip no_edges_graph [0, 1] (make_rev_index no_edges_graph) =
     Inl ZeroDivisionError \<and>
   fst (cluster_graph demo_ext no_flip no_edges_graph (1 / 10) 3 2 20 ''KMeans'' world0) =
     Inl ZeroDivisionError"
proof -
  have e: "edges no_edges_graph = []" by (simp add: no_edges_graph_def)
  have d: "diffusion demo_ext (nodes no_edges_graph) (edges no_edges_graph) (Some (1 / 10)) 20
             True = Inr ([[0, 0], [0, 0]], False, [])"
    by code_simp
  have s: "sparsity_score no_flip no_edges_graph [0, 1] (make_rev_index no_edges_graph) =
     Inl ZeroDivisionError"
    by code_simp
  show ?thesis
    by (rule conjI [OF s cluster_graph_no_edges [OF e d]])
qed

text \<open>
  Claim C7, amended. For a graph with zero edges sparsity_score raises ZeroDivisionError
  for every assignment; cluster_hard raises it for every method, and cluster_graph raises
  it whenever diffusion reports no memory effect.
\<close>

theorem no_edges_zero_division:
  assumes "edges g = []"
  shows "sparsity_score flip g clusters rev_index = Inl ZeroDivisionError \<and>
         fst (cluster_hard ext flip g rev_index scoremat max_clusters min_clusters cluster w) =
           Inl ZeroDivisionError \<and>
         (diffusion ext (nodes g) (edges g) (Some limit) iterations True =
            Inr (scoremat, False, diffs')
          \<longrightarrow> fst (cluster_graph ext flip g limit max_clusters min_clusters iterations cluster w)
                = Inl ZeroDivisionError)"
  using assms
  by (simp add: sparsity_score_no_edges cluster_hard_no_edges cluster_graph_no_edges)

theorem no_edges_zero_division_witness:
  "(edges no_edges_graph = [] \<and>
    diffusion demo_ext (nodes no_edges_graph) (edges no_edges_graph) (Some (1 / 10)) 20 True =
      Inr ([[0, 0], [0, 0]], False, [])) \<and>
   sparsity_score no_flip no_edges_graph [0, 1] (make_rev_index no_edges_graph) =
     Inl ZeroDivisionError \<and>
   fst (cluster_hard demo_ext no_flip no_edges_graph (make_rev_index no_edges_graph)
          [[0, 0], [0, 0]] 3 2 ''KMeans'' world0) = Inl ZeroDivisionError \<and>
   fst (cluster_graph demo_ext no_flip no_edges_graph (1 / 10) 3 2 20 ''KMeans'' world0) =
     Inl ZeroDivisionError"
proof -
  have e: "edges no_edges_graph = []" by (simp add: no_edges_graph_def)
  have d: "diffusion demo_ext (nodes no_edges_graph) (edges no_edges_graph) (Some (1 / 10)) 20
             True = Inr ([[0, 0], [0, 0]], False, [])"
    by code_simp
  note inst = no_edges_zero_division [OF e, of no_flip "[0, 1]" "make_rev_index no_edges_graph"
      demo_ext "[[0, 0], [0, 0]]" 3 2 "''KMeans''" world0 "1 / 10" 20 "[]"]
  show ?thesis
    by (rule conjI [OF conjI [OF e d]
          conjI [OF conjunct1 [OF inst]
            conjI [OF conjunct1 [OF conjunct2 [OF inst]]
              mp [OF conjunct2 [OF conjunct2 [OF inst]] d]]]])
qed


section \<open>cluster_fuzzy\<close>

lemma ebind_Inr [simp]: "ebind (Inr x) f = f x"
  by (simp add: ebind_def)

lemma ebind_Inl [simp]: "ebind (Inl e) f = Inl e"
  by (simp add: ebind_def)

lemma ebind_eq_Inr: "ebind r f = Inr y \<longleftrightarrow> (\<exists>x. r = Inr x \<and> f x = Inr y)"
  by (cases r) simp_all














lemma bnd_eq_Inr:
  "bnd m f w = (Inr y, w') \<longleftrightarrow> (\<exists>x w1. m w = (Inr x, w1) \<and> f x w1 = (Inr y, w'))"
  by (auto simp: bnd_def split: prod.splits sum.splits)

lemma call_ext_eq_Inr:
  "call_ext f w = (Inr x, w') \<longleftrightarrow> (\<exists>s'. f (rng w) = Inr (x, s') \<and> w' = w\<lparr>rng := s'\<rparr>)"
  by (auto simp: call_ext_def split: prod.splits sum.splits)

lemma cluster_fuzzy_diffs_length:
  "cluster_fuzzy_diffs ext flip g ri max_clusters min_clusters cluster j dfs (ds, ts) w =
     (Inr (ds', ts'), w') \<Longrightarrow>
   length ds' = length ds + length dfs \<and> length ts' = length ts + length dfs \<and>
   (dfs \<noteq> [] \<longrightarrow> cluster = ''KMeans'')"
proof (induction dfs arbitrary: j ds ts w)
  case Nil
  then show ?case by simp
next
  case (Cons scoremat dfs)
  have km: "cluster = ''KMeans''"
  proof (rule ccontr)
    assume "cluster \<noteq> ''KMeans''"
    then show False using Cons.prems by (simp add: np_argmin_def)
  qed
  from Cons.prems km obtain d t w1 where
    "cluster_fuzzy_diffs ext flip g ri max_clusters min_clusters cluster (Suc j) dfs
       (ds @ [d], ts @ [t]) w1 = (Inr (ds', ts'), w')"
    by (auto simp: bnd_eq_Inr Let_def)
  from Cons.IH [OF this] km show ?case by simp
qed

lemma cluster_fuzzy_refit_KMeans:
  "cluster_fuzzy_refit ext dfs ts ''KMeans'' js (sc, ce) w = (Inr (sc', ce'), w') \<Longrightarrow>
   length sc' = length sc + length js \<and> length ce' = length ce + length js \<and>
   (js \<noteq> [] \<longrightarrow>
      (\<exists>s s'. KMeans_fit_predict ext (ts ! last js) (dfs ! last js) s = Inr (last sc', s')))"
proof (induction js arbitrary: sc ce w)
  case Nil
  then show ?case by simp
next
  case (Cons j js)
  from Cons.prems obtain labels centers w1 w2 w3 where
    j: "j < length dfs" "j < length ts"
    and fit: "call_ext (KMeans_fit_predict ext (ts ! j) (dfs ! j)) w1 = (Inr labels, w2)"
    and rest: "cluster_fuzzy_refit ext dfs ts ''KMeans'' js (sc @ [labels], ce @ [centers]) w3 =
       (Inr (sc', ce'), w')"
    by (auto simp: bnd_eq_Inr list_get_def split: if_splits)
  note ih = Cons.IH [OF rest]
  show ?case
  proof (cases "js = []")
    case True
    then have "sc' = sc @ [labels]" using rest by simp
    then show ?thesis using ih True fit by (auto simp: call_ext_eq_Inr)
  next
    case False
    then show ?thesis using ih by simp
  qed
qed

lemma separating_lt: "j \<in> set (separating difscores) \<Longrightarrow> j < length difscores"
  by (simp add: separating_def)

lemma separating_empty:
  "\<forall>d\<in>set difscores. - (1 / 2) \<le> d \<Longrightarrow> separating difscores = []"
  by (auto simp: separating_def filter_empty_conv not_less)

lemma cluster_fuzzy_after_sweep:
  assumes "cluster_fuzzy_diffs ext flip g ri max_clusters min_clusters cluster 0 dfs ([], []) w =
             (Inr (difscores, topscores), w1)"
  shows "cluster_fuzzy ext flip g ri dfs max_clusters min_clusters cluster w =
         bnd (pure_step (ebind (last_get (separating difscores)) (list_get topscores)))
           (\<lambda>topscore.
            bnd (cluster_fuzzy_refit ext dfs topscores cluster (tl (separating difscores))
                   ([], []))
              (\<lambda>(sep_clusters, centroids).
                 pure_step (cluster_fuzzy_assign topscore sep_clusters centroids)))
           (w1\<lparr>stdout := stdout w1 @ [UsingIterations (separating difscores)]\<rparr>)"
  unfolding cluster_fuzzy_def
  by (simp add: bnd_def assms Let_def emit_def)


lemma clusprobs_loop_single:
  "clusprobs_loop cd [l] final ns acc = Inr (acc @ replicate (length ns) 0)"
  by (induction ns arbitrary: acc) (simp_all add: replicate_app_Cons_same)

lemma cluster_fuzzy_clusprobs_single:
  "cluster_fuzzy_clusprobs topscore [l] [c] = Inr (l, replicate (length l) 0)"
  by (simp add: cluster_fuzzy_clusprobs_def last_get_def clusprobs_loop_single)

lemma cluster_fuzzy_assign_single:
  "cluster_fuzzy_assign topscore [l] [c] = Inr (replicate (length l) 100)"
proof -
  have "map2 (\<lambda>lbl p. if p < 1 / 2 then 100 else lbl) l (replicate (length l) (0::real)) =
        replicate (length l) (100::int)"
    by (induction l) simp_all
  then show ?thesis
    unfolding cluster_fuzzy_assign_def cluster_fuzzy_clusprobs_single
    by (simp only: ebind_Inr prod.case)
qed

lemma cluster_fuzzy_run:
  assumes sweep: "cluster_fuzzy_diffs ext flip g rev_index max_clusters min_clusters cluster 0
             diffs' ([], []) w = (Inr (difscores, topscores), w1)"
    and ne: "separating difscores \<noteq> []"
    and refit: "cluster_fuzzy_refit ext diffs' topscores cluster (tl (separating difscores))
              ([], []) (w1\<lparr>stdout := stdout w1 @ [UsingIterations (separating difscores)]\<rparr>) =
              (Inr (sep_clusters, centroids), w2)"
  shows "cluster_fuzzy ext flip g rev_index diffs' max_clusters min_clusters cluster w =
           (cluster_fuzzy_assign (topscores ! last (separating difscores)) sep_clusters
              centroids, w2)"
    and "cluster = ''KMeans''"
proof -
  note len = cluster_fuzzy_diffs_length [OF sweep]
  have "last (separating difscores) \<in> set (separating difscores)" using ne by simp
  then have lt: "last (separating difscores) < length topscores"
    using separating_lt len by fastforce
  then have "diffs' \<noteq> []" using len by auto
  then have km: "cluster = ''KMeans''" using len by simp
  show "cluster_fuzzy ext flip g rev_index diffs' max_clusters min_clusters cluster w =
           (cluster_fuzzy_assign (topscores ! last (separating difscores)) sep_clusters
              centroids, w2)"
    unfolding cluster_fuzzy_after_sweep [OF sweep]
    by (simp add: ne last_get_def list_get_def lt bnd_def refit)
  show "cluster = ''KMeans''" by (rule km)
qed


text \<open>
  Claim C3 as stated fails: when no snapshot clears the threshold the code reports no
  condition of its own. It writes the empty list of separating iterations and then
  \<^verbatim>\<open>separating_iters[-1]\<close> raises IndexError.
\<close>

theorem cluster_fuzzy_no_separating_counterexample:
  "cluster_fuzzy demo_ext no_flip demo_graph (make_rev_index demo_graph)
     [snapshot [0, 0, 1, 1], snapshot [0, 1, 0, 1]] 3 2 ''KMeans'' world0 =
   (Inl IndexError,
    \<lparr>rng = 4,
     stdout = [IterationLowest 0 2 (- (1 / 5)), IterationLowest 1 2 (- (1 / 5)),
               UsingIterations []]\<rparr>)"
  by code_simp

text \<open>
  Claim C3, amended. When the sweep over the snapshots completes and no snapshot's best
  score is below \<open>-0.5\<close>, cluster_fuzzy returns no assignment: it writes the empty list
  of separating iterations and ends with IndexError.
\<close>

theorem cluster_fuzzy_no_separating:
  assumes "cluster_fuzzy_diffs ext flip g rev_index max_clusters min_clusters cluster 0 diffs'
             ([], []) w = (Inr (difscores, topscores), w1)"
    and "\<forall>d\<in>set difscores. - (1 / 2) \<le> d"
  shows "cluster_fuzzy ext flip g rev_index diffs' max_clusters min_clusters cluster w =
           (Inl IndexError, w1\<lparr>stdout := stdout w1 @ [UsingIterations []]\<rparr>)"
  unfolding cluster_fuzzy_after_sweep [OF assms(1)] separating_empty [OF assms(2)]
  by (simp add: last_get_def)

theorem cluster_fuzzy_no_separating_witness:
  "cluster_fuzzy_diffs demo_ext no_flip demo_graph (make_rev_index demo_graph) 3 2 ''KMeans'' 0
     demo_diffs_none ([], []) world0 =
     (Inr ([- (1 / 5)], [2]), \<lparr>rng = 2, stdout = [IterationLowest 0 2 (- (1 / 5))]\<rparr>) \<and>
   cluster_fuzzy demo_ext no_flip demo_graph (make_rev_index demo_graph) demo_diffs_none 3 2
     ''KMeans'' world0 =
     (Inl IndexError,
      \<lparr>rng = 2, stdout = [IterationLowest 0 2 (- (1 / 5)), UsingIterations []]\<rparr>)"
proof -
  have sweep: "cluster_fuzzy_diffs demo_ext no_flip demo_graph (make_rev_index demo_graph) 3 2
     ''KMeans'' 0 demo_diffs_none ([], []) world0 =
     (Inr ([- (1 / 5)], [2]), \<lparr>rng = 2, stdout = [IterationLowest 0 2 (- (1 / 5))]\<rparr>)"
    by code_simp
  have none: "\<forall>d\<in>set [- (1 / 5) :: real]. - (1 / 2) \<le> d" by simp
  have "cluster_fuzzy demo_ext no_flip demo_graph (make_rev_index demo_graph) demo_diffs_none
     3 2 ''KMeans'' world0 =
     (Inl IndexError,
      \<lparr>rng = 2, stdout = [IterationLowest 0 2 (- (1 / 5)), UsingIterations []]\<rparr>)"
    using cluster_fuzzy_no_separating [OF sweep none] by simp
  with sweep show ?thesis by (rule conjI)
qed

text \<open>
  Claim C10. With exactly two separating snapshots the stability loop runs over zero
  earlier snapshots (\<open>sep_clusters\<close> holds the last snapshot only), every entry of
  \<^verbatim>\<open>clusprobs\<close> is 0, and every node of the returned assignment carries the sentinel
  100.
\<close>

theorem cluster_fuzzy_two_separating:
  assumes sweep: "cluster_fuzzy_diffs ext flip g rev_index max_clusters min_clusters cluster 0
             diffs' ([], []) w = (Inr (difscores, topscores), w1)"
    and two: "length (separating difscores) = 2"
    and refit: "cluster_fuzzy_refit ext diffs' topscores cluster (tl (separating difscores))
              ([], []) (w1\<lparr>stdout := stdout w1 @ [UsingIterations (separating difscores)]\<rparr>) =
              (Inr (sep_clusters, centroids), w2)"
  shows "length sep_clusters - 1 = 0 \<and>
         cluster_fuzzy_clusprobs (topscores ! last (separating difscores)) sep_clusters centroids =
           Inr (last sep_clusters, replicate (length (last sep_clusters)) 0) \<and>
         cluster_fuzzy ext flip g rev_index diffs' max_clusters min_clusters cluster w =
           (Inr (replicate (length (last sep_clusters)) 100), w2)"
proof -
  have ne: "separating difscores \<noteq> []" and tl1: "length (tl (separating difscores)) = 1"
    using two by auto
  note run = cluster_fuzzy_run(1) [OF sweep ne refit]
  note km = cluster_fuzzy_run(2) [OF sweep ne refit]
  have "length sep_clusters = 1 \<and> length centroids = 1"
    using cluster_fuzzy_refit_KMeans [OF refit [unfolded km]] tl1 by simp
  then obtain l c where lc: "sep_clusters = [l]" "centroids = [c]"
    by (cases sep_clusters; cases centroids) auto
  have none: "length sep_clusters - 1 = 0" by (simp add: lc)
  have probs: "cluster_fuzzy_clusprobs (topscores ! last (separating difscores)) sep_clusters
      centroids = Inr (last sep_clusters, replicate (length (last sep_clusters)) 0)"
    by (simp add: lc cluster_fuzzy_clusprobs_single)
  have "cluster_fuzzy ext flip g rev_index diffs' max_clusters min_clusters cluster w =
           (Inr (replicate (length (last sep_clusters)) 100), w2)"
    unfolding run lc cluster_fuzzy_assign_single by simp
  with none probs show ?thesis by blast
qed

theorem cluster_fuzzy_two_separating_witness:
  "(cluster_fuzzy_diffs demo_ext no_flip demo_graph (make_rev_index demo_graph) 3 2 ''KMeans'' 0
      demo_diffs_two ([], []) world0 =
      (Inr ([- (1 / 5), - 1, - (3 / 5)], [2, 2, 3]),
       \<lparr>rng = 6,
        stdout = [IterationLowest 0 2 (- (1 / 5)), IterationLowest 1 2 (- 1),
                  IterationLowest 2 3 (- (3 / 5))]\<rparr>) \<and>
    separating [- (1 / 5), - 1, - (3 / 5)] = [1, 2]) \<and>
   cluster_fuzzy_clusprobs 3 [[0, 0, 2, 1]] [demo_centers 3] = Inr ([0, 0, 2, 1], [0, 0, 0, 0]) \<and>
   cluster_fuzzy demo_ext no_flip demo_graph (make_rev_index demo_graph) demo_diffs_two 3 2
     ''KMeans'' world0 =
     (Inr [100, 100, 100, 100],
      \<lparr>rng = 8,
       stdout = [IterationLowest 0 2 (- (1 / 5)), IterationLowest 1 2 (- 1),
                 IterationLowest 2 3 (- (3 / 5)), UsingIterations [1, 2]]\<rparr>)"
proof -
  let ?w1 = "\<lparr>rng = 6 :: nat,
        stdout = [IterationLowest 0 2 (- (1 / 5)), IterationLowest 1 2 (- 1),
                  IterationLowest 2 3 (- (3 / 5))]\<rparr>"
  let ?ds = "[- (1 / 5), - 1, - (3 / 5)] :: real list"
  have sweep: "cluster_fuzzy_diffs demo_ext no_flip demo_graph (make_rev_index demo_graph) 3 2
      ''KMeans'' 0 demo_diffs_two ([], []) world0 = (Inr (?ds, [2, 2, 3]), ?w1)"
    by code_simp
  have sep: "separating ?ds = [1, 2]" by code_simp
  have two: "length (separating ?ds) = 2" by (simp add: sep)
  have refit: "cluster_fuzzy_refit demo_ext demo_diffs_two [2, 2, 3] ''KMeans''
      (tl (separating ?ds)) ([], [])
      (?w1\<lparr>stdout := stdout ?w1 @ [UsingIterations (separating ?ds)]\<rparr>) =
      (Inr ([[0, 0, 2, 1]], [demo_centers 3]),
       \<lparr>rng = 8,
        stdout = [IterationLowest 0 2 (- (1 / 5)), IterationLowest 1 2 (- 1),
                  IterationLowest 2 3 (- (3 / 5)), UsingIterations [1, 2]]\<rparr>)"
    by code_simp
  note inst = cluster_fuzzy_two_separating [OF sweep two refit]
  have probs: "cluster_fuzzy_clusprobs 3 [[0, 0, 2, 1]] [demo_centers 3] =
      Inr ([0, 0, 2, 1], [0, 0, 0, 0])"
    using conjunct1 [OF conjunct2 [OF inst]] by (simp add: sep)
  have run: "cluster_fuzzy demo_ext no_flip demo_graph (make_rev_index demo_graph)
      demo_diffs_two 3 2 ''KMeans'' world0 =
     (Inr [100, 100, 100, 100],
      \<lparr>rng = 8,
       stdout = [IterationLowest 0 2 (- (1 / 5)), IterationLowest 1 2 (- 1),
                 IterationLowest 2 3 (- (3 / 5)), UsingIterations [1, 2]]\<rparr>)"
    using conjunct2 [OF conjunct2 [OF inst]] by simp
  show ?thesis
    by (rule conjI [OF conjI [OF sweep sep] conjI [OF probs run]])
qed




section \<open>central_edge\<close>

lemma filter_nth_upt:
  "map (\<lambda>j. xs ! j) (filter (\<lambda>j. P (xs ! j)) [0..<length xs]) = filter P xs"
proof -
  have "filter P xs = filter P (map (\<lambda>j. xs ! j) [0..<length xs])"
    by (simp add: map_nth)
  also have "\<dots> = map (\<lambda>j. xs ! j) (filter (\<lambda>j. P (xs ! j)) [0..<length xs])"
    by (simp add: filter_map comp_def)
  finally show ?thesis by simp
qed

lemma length_filter_nth_upt:
  "length (filter (\<lambda>j. P (xs ! j)) [0..<length xs]) = length (filter P xs)"
proof -
  have "length (map (\<lambda>j. xs ! j) (filter (\<lambda>j. P (xs ! j)) [0..<length xs])) =
        length (filter P xs)"
    by (simp only: filter_nth_upt)
  then show ?thesis by simp
qed

lemma np_argwhere_snoc:
  "np_argwhere P (a @ [r]) =
   np_argwhere P a @ map (\<lambda>j. (length a, j)) (filter (\<lambda>j. P (r ! j)) [0..<length r])"
proof -
  have eq: "map (\<lambda>i. map (\<lambda>j. (i, j))
              (filter (\<lambda>j. P ((a @ [r]) ! i ! j)) [0..<length ((a @ [r]) ! i)]))
          [0..<length a] =
        map (\<lambda>i. map (\<lambda>j. (i, j)) (filter (\<lambda>j. P (a ! i ! j)) [0..<length (a ! i)]))
          [0..<length a]"
    by (rule map_cong [OF refl]) (simp add: nth_append)
  show ?thesis by (simp add: np_argwhere_def eq)
qed

lemma np_argwhere_Nil: "np_argwhere P [] = []"
  by (simp add: np_argwhere_def)

lemma length_np_argwhere:
  "length (np_argwhere P a) = length (filter P (concat a))"
  by (induction a rule: rev_induct)
     (simp_all add: np_argwhere_Nil np_argwhere_snoc length_filter_nth_upt)

lemma set_np_argwhere:
  "set (np_argwhere P a) = {(i, j). i < length a \<and> j < length (a ! i) \<and> P (a ! i ! j)}"
  by (auto simp: np_argwhere_def)

lemma distinct_np_argwhere: "distinct (np_argwhere P a)"
proof (induction a rule: rev_induct)
  case Nil
  then show ?case by (simp add: np_argwhere_Nil)
next
  case (snoc r a)
  have "distinct (map (\<lambda>j. (length a, j)) (filter (\<lambda>j. P (r ! j)) [0..<length r]))"
    by (simp add: distinct_map inj_on_def)
  moreover have "set (np_argwhere P a) \<inter>
      set (map (\<lambda>j. (length a, j)) (filter (\<lambda>j. P (r ! j)) [0..<length r])) = {}"
    by (auto simp: set_np_argwhere)
  ultimately show ?case using snoc by (simp add: np_argwhere_snoc)
qed

lemma np_percentile_Some:
  assumes "concat a \<noteq> []" and "0 \<le> q" and "q \<le> 100"
  shows "\<exists>t. np_percentile a q = Inr (Some t)"
proof -
  have "sort (concat a) \<noteq> []"
    using assms(1) by (metis length_sort length_0_conv)
  then show ?thesis using assms(2,3) by (simp add: np_percentile_def Let_def)
qed

lemma central_edge_zero:
  "central_edge ext g percentile 0 error_rate w =
     (ebind (central_edge_vals ext g percentile)
        (\<lambda>(edge_vals, edge_scores). Inr (set_edge_hub g edge_vals)), w)"
  unfolding central_edge_def central_edge_vals_def
  by (simp add: bnd_def ebind_def Let_def split: sum.splits prod.splits)

lemma label_hubs_nodes:
  "nodes g' = nodes g \<Longrightarrow>
   label_hubs g' adj_index None label hubs acc = label_hubs g adj_index None label hubs acc"
proof (induction hubs arbitrary: acc)
  case Nil
  then show ?case by simp
next
  case (Cons h hubs)
  obtain i j where h: "h = (i, j)" by (cases h) auto
  obtain ev es where acc: "acc = (ev, es)" by (cases acc) auto
  show ?case
    unfolding h acc using Cons
    by (cases "list_get (nodes g) i"; cases "list_get (nodes g) j") (simp_all add: Let_def)
qed


lemma set_edge_hub_eq:
  "set_edge_hub g vals = g\<lparr>edge_hub := edge_hub g ++ hub_updates (edges g) vals\<rparr>"
proof (induction vals arbitrary: g)
  case Nil
  then show ?case by simp
next
  case (Cons kv vals)
  obtain u v val where kv: "kv = ((u, v), val)" by (cases kv) auto
  show ?case
  proof (cases "find (same_edge u v) (edges g)")
    case None
    then show ?thesis unfolding kv using Cons by simp
  next
    case (Some e)
    obtain a b w where e: "e = (a, b, w)" by (cases e) auto
    have "set_edge_hub g (kv # vals) =
          set_edge_hub (g\<lparr>edge_hub := (edge_hub g)((a, b) \<mapsto> val)\<rparr>) vals"
      using Some e kv by simp
    also have "\<dots> = g\<lparr>edge_hub := (edge_hub g)((a, b) \<mapsto> val) ++ hub_updates (edges g) vals\<rparr>"
      by (simp add: Cons fun_upd_def)
    also have "(edge_hub g)((a, b) \<mapsto> val) ++ hub_updates (edges g) vals =
          edge_hub g ++ hub_updates (edges g) (kv # vals)"
      using Some e kv by (simp add: fun_eq_iff map_add_def split: option.splits)
    finally show ?thesis .
  qed
qed

lemma set_edge_hub_idem:
  "set_edge_hub (set_edge_hub g vals) vals = set_edge_hub g vals"
proof -
  have "(edge_hub g ++ hub_updates (edges g) vals) ++ hub_updates (edges g) vals =
        edge_hub g ++ hub_updates (edges g) vals"
    by (simp add: fun_eq_iff map_add_def split: option.splits)
  then show ?thesis by (simp add: set_edge_hub_eq)
qed

lemma set_edge_hub_nodes [simp]: "nodes (set_edge_hub g vals) = nodes g"
  by (simp add: set_edge_hub_eq)

lemma set_edge_hub_edges [simp]: "edges (set_edge_hub g vals) = edges g"
  by (simp add: set_edge_hub_eq)

lemma central_edge_vals_relabelled:
  "central_edge_vals ext (set_edge_hub g vals) percentile = central_edge_vals ext g percentile"
proof -
  have adj: "make_adj_index (set_edge_hub g vals) = make_adj_index g"
    by (simp add: make_adj_index_def)
  have lab: "\<And>label hubs acc. label_hubs (set_edge_hub g vals) (make_adj_index g) None label hubs acc =
      label_hubs g (make_adj_index g) None label hubs acc"
    by (rule label_hubs_nodes) simp
  show ?thesis
    by (simp add: central_edge_vals_def adj lab)
qed


text \<open>
  Claim C6. For a score matrix with at least one entry and a percentile in \<open>[0, 100]\<close>,
  the negative threshold is the percentile-th percentile of the matrix and the positive
  threshold the (100 - percentile)-th; the negative hubs are exactly the positions of
  the entries at or below the negative threshold, the positive hubs exactly the positions
  of the entries at or above the positive threshold, each position once, so that the
  numbers of hubs are the numbers of such entries.
\<close>

theorem hub_positions_thresholds:
  assumes "concat scoremat \<noteq> []" and "0 \<le> percentile" and "percentile \<le> 100"
  shows "\<exists>negthresh posthresh neghubs poshubs.
           hub_positions scoremat percentile =
             Inr (Some negthresh, Some posthresh, neghubs, poshubs) \<and>
           np_percentile scoremat percentile = Inr (Some negthresh) \<and>
           np_percentile scoremat (100 - percentile) = Inr (Some posthresh) \<and>
           set neghubs = {(i, j). i < length scoremat \<and> j < length (scoremat ! i) \<and>
                                  scoremat ! i ! j \<le> negthresh} \<and>
           set poshubs = {(i, j). i < length scoremat \<and> j < length (scoremat ! i) \<and>
                                  scoremat ! i ! j \<ge> posthresh} \<and>
           distinct neghubs \<and> distinct poshubs \<and>
           length neghubs = length (filter (\<lambda>x. x \<le> negthresh) (concat scoremat)) \<and>
           length poshubs = length (filter (\<lambda>x. x \<ge> posthresh) (concat scoremat))"
proof -
  obtain nt where nt: "np_percentile scoremat percentile = Inr (Some nt)"
    using np_percentile_Some [OF assms] by blast
  have "0 \<le> 100 - percentile" "100 - percentile \<le> 100" using assms by simp_all
  then obtain pt where pt: "np_percentile scoremat (100 - percentile) = Inr (Some pt)"
    using np_percentile_Some [OF assms(1)] by blast
  have le: "le_thresh (Some nt) = (\<lambda>x. x \<le> nt)" and ge: "ge_thresh (Some pt) = (\<lambda>x. x \<ge> pt)"
    by (simp_all add: le_thresh_def ge_thresh_def fun_eq_iff)
  have hp: "hub_positions scoremat percentile =
      Inr (Some nt, Some pt, np_argwhere (\<lambda>x. x \<le> nt) scoremat,
           np_argwhere (\<lambda>x. x \<ge> pt) scoremat)"
    by (simp add: hub_positions_def nt pt le ge)
  show ?thesis
    using hp nt pt
    by (intro exI [of _ nt] exI [of _ pt] exI [of _ "np_argwhere (\<lambda>x. x \<le> nt) scoremat"]
          exI [of _ "np_argwhere (\<lambda>x. x \<ge> pt) scoremat"])
       (simp add: set_np_argwhere distinct_np_argwhere length_np_argwhere)
qed

theorem hub_positions_thresholds_witness:
  "(concat (adjacency (nodes demo_graph) (edges demo_graph)) \<noteq> [] \<and>
    (0::real) \<le> 10 \<and> (10::real) \<le> 100) \<and>
   (\<exists>negthresh posthresh neghubs poshubs.
      hub_positions (adjacency (nodes demo_graph) (edges demo_graph)) 10 =
        Inr (Some negthresh, Some posthresh, neghubs, poshubs)) \<and>
   hub_positions (adjacency (nodes demo_graph) (edges demo_graph)) 10 =
     Inr (Some (- (3 / 2)), Some 2, [(2, 3), (3, 2)], [(1, 2), (2, 1)])"
proof -
  have ne: "concat (adjacency (nodes demo_graph) (edges demo_graph)) \<noteq> []" by code_simp
  have lo: "(0::real) \<le> 10" and hi: "(10::real) \<le> 100" by simp_all
  have val: "hub_positions (adjacency (nodes demo_graph) (edges demo_graph)) 10 =
     Inr (Some (- (3 / 2)), Some 2, [(2, 3), (3, 2)], [(1, 2), (2, 1)])"
    by code_simp
  from hub_positions_thresholds [OF ne lo hi]
  have ex: "\<exists>negthresh posthresh neghubs poshubs.
      hub_positions (adjacency (nodes demo_graph) (edges demo_graph)) 10 =
        Inr (Some negthresh, Some posthresh, neghubs, poshubs)"
    by blast
  show ?thesis
    by (rule conjI [OF conjI [OF ne conjI [OF lo hi]] conjI [OF ex val]])
qed

text \<open>
  Claim C8. With \<^verbatim>\<open>permutations = 0\<close> central_edge draws nothing from the random
  state and writes nothing: its result is the same in every world, and a second call
  with the same parameters, on the graph that the first call labelled, returns that
  graph again, with identical hub labels.
\<close>

theorem central_edge_deterministic:
  "fst (central_edge ext g percentile 0 error_rate w) =
     fst (central_edge ext g percentile 0 error_rate w') \<and>
   snd (central_edge ext g percentile 0 error_rate w) = w \<and>
   (central_edge ext g percentile 0 error_rate w = (Inr g1, w1) \<longrightarrow>
    central_edge ext g1 percentile 0 error_rate w' = (Inr g1, w') \<and>
    nodes g1 = nodes g \<and> edges g1 = edges g)"
proof -
  have again: "central_edge ext g1 percentile 0 error_rate w' = (Inr g1, w') \<and>
    nodes g1 = nodes g \<and> edges g1 = edges g"
    if run: "central_edge ext g percentile 0 error_rate w = (Inr g1, w1)"
  proof -
    from run obtain edge_vals edge_scores where
      vals: "central_edge_vals ext g percentile = Inr (edge_vals, edge_scores)"
      and g1: "g1 = set_edge_hub g edge_vals"
      by (auto simp: central_edge_zero ebind_eq_Inr)
    show ?thesis
      unfolding g1
      by (simp add: central_edge_zero central_edge_vals_relabelled vals set_edge_hub_idem)
  qed
  show ?thesis
    using again by (simp add: central_edge_zero)
qed

theorem central_edge_deterministic_witness:
  "central_edge demo_ext demo_graph 10 0 (1 / 10) world0 =
     (Inr (set_edge_hub demo_graph demo_vals), world0) \<and>
   central_edge demo_ext (set_edge_hub demo_graph demo_vals) 10 0 (1 / 10)
     \<lparr>rng = 7, stdout = []\<rparr> =
     (Inr (set_edge_hub demo_graph demo_vals), \<lparr>rng = 7, stdout = []\<rparr>) \<and>
   map (edge_hub (set_edge_hub demo_graph demo_vals))
     [(NStr ''a'', NStr ''b''), (NStr ''c'', NStr ''d''), (NStr ''b'', NStr ''c''),
      (NStr ''a'', NStr ''d''), (NStr ''a'', NStr ''c'')] =
     [None, Some ''negative hub'', Some ''positive hub'', None, None]"
proof -
  have vals: "central_edge_vals demo_ext demo_graph 10 = Inr (demo_vals, [])"
    by code_simp
  have run: "central_edge demo_ext demo_graph 10 0 (1 / 10) world0 =
     (Inr (set_edge_hub demo_graph demo_vals), world0)"
    by (simp add: central_edge_zero vals)
  have labels: "map (edge_hub (set_edge_hub demo_graph demo_vals))
     [(NStr ''a'', NStr ''b''), (NStr ''c'', NStr ''d''), (NStr ''b'', NStr ''c''),
      (NStr ''a'', NStr ''d''), (NStr ''a'', NStr ''c'')] =
     [None, Some ''negative hub'', Some ''positive hub'', None, None]"
    by code_simp
  note inst = central_edge_deterministic [of demo_ext demo_graph 10 "1 / 10" world0
      "\<lparr>rng = 7, stdout = []\<rparr>" "set_edge_hub demo_graph demo_vals" world0]
  have again: "central_edge demo_ext (set_edge_hub demo_graph demo_vals) 10 0 (1 / 10)
     \<lparr>rng = 7, stdout = []\<rparr> =
     (Inr (set_edge_hub demo_graph demo_vals), \<lparr>rng = 7, stdout = []\<rparr>)"
    by (rule conjunct1 [OF mp [OF conjunct2 [OF conjunct2 [OF inst]] run]])
  show ?thesis
    by (rule conjI [OF run conjI [OF again labels]])
qed


end
